theory Spec2Isabelle
  imports Complex_Main "HOL-Library.AList" "HOL-Library.Word"
begin

section \<open>A chunked, replicated file store: metadata server, chunk nodes, gateway\<close>

text \<open>
  The development embeds three source files:
  \<^item> \<^verbatim>\<open>backend/node.py\<close>: the chunk store of one storage node;
  \<^item> \<^verbatim>\<open>backend/metadata_server/metadata5.py\<close>: namespace, chunk directory, reconciler;
  \<^item> \<^verbatim>\<open>backend/api_gateway/api5.py\<close>: the upload and download paths.

  Conventions of the embedding. A byte is an 8-bit word and \<open>bytes\<close> a list of them.
  A Python \<open>dict\<close> that the code iterates over (\<open>file_to_chunks\<close>, \<open>NODE_MAP\<close>) is an
  association list in insertion order, written with \<open>AList.update\<close> and \<open>AList.delete\<close>;
  a \<open>dict\<close> that is only looked up and updated by key (\<open>chunk_metadata\<close>, the blobs of a
  node) is a map. An HTTP handler is a function from the state it reads to the state it
  leaves and the status code it answers with. Every node process is taken to be running
  and its disk to work, so a request to one of the three configured addresses is answered
  by the handler of that node; the persisted metadata file is the \<open>metadata\<close> value passed
  from one handler to the next. Time is a number of seconds. The identifiers drawn from
  \<open>uuid.uuid4()\<close> during one call are the parameter \<open>uuid4\<close>: its \<open>k\<close>-th value is the
  \<open>k\<close>-th identifier drawn.
\<close>

subsection \<open>Configuration\<close>

type_synonym byte = "8 word"
type_synonym bytes = "byte list"

definition CHUNK_SIZE :: nat where
  "CHUNK_SIZE = 4194304"

definition LEASE_DURATION :: int where
  "LEASE_DURATION = 60"

definition NODE_MAP :: "(string \<times> string) list" where
  "NODE_MAP =
     [(''node1'', ''http://localhost:5001''),
      (''node2'', ''http://localhost:5002''),
      (''node3'', ''http://localhost:5003'')]"

subsection \<open>The chunk store of a node (\<^verbatim>\<open>node.py\<close>)\<close>

type_synonym store = "string \<rightharpoonup> bytes"

text \<open>The body of a JSON error answer, as the bytes a client reads from it.\<close>

definition error_content :: "string \<Rightarrow> bytes" where
  "error_content msg =
     map (\<lambda>c. of_nat (of_char c)) (''{\"error\":\"'' @ msg @ ''\"}'' @ [CHR 0x0A])"

text \<open>
  \<open>upload_chunk\<close>: \<open>POST /chunk\<close>. The header \<open>X-Chunk-ID\<close> may be absent (\<open>None\<close>);
  \<open>not chunk_id\<close> holds for an absent and for an empty header, \<open>not chunk_data\<close> for an
  empty body.
\<close>

definition upload_chunk :: "store \<Rightarrow> string option \<Rightarrow> bytes \<Rightarrow> store \<times> nat" where
  "upload_chunk st header chunk_data =
     (case header of
        None \<Rightarrow> (st, 400)
      | Some chunk_id \<Rightarrow>
          if chunk_id = [] then (st, 400)
          else if chunk_data = [] then (st, 400)
          else (st(chunk_id \<mapsto> chunk_data), 201))"

text \<open>\<open>download_chunk\<close>: \<open>GET /chunk/<chunk_id>\<close>, the status and the content of the answer.\<close>

definition download_chunk :: "store \<Rightarrow> string \<Rightarrow> nat \<times> bytes" where
  "download_chunk st chunk_id =
     (case st chunk_id of
        None \<Rightarrow> (404, error_content ''Chunk not found'')
      | Some chunk_data \<Rightarrow> (200, chunk_data))"

text \<open>\<open>delete_chunk\<close>: \<open>DELETE /chunk/<chunk_id>\<close>.\<close>

definition delete_chunk :: "store \<Rightarrow> string \<Rightarrow> store \<times> nat" where
  "delete_chunk st chunk_id =
     (case st chunk_id of
        None \<Rightarrow> (st, 404)
      | Some _ \<Rightarrow> (st(chunk_id := None), 200))"

text \<open>\<open>check_chunk_exists\<close>: \<open>GET /chunk/<chunk_id>/exists\<close>, always status 200.\<close>

definition check_chunk_exists :: "store \<Rightarrow> string \<Rightarrow> nat \<times> bool" where
  "check_chunk_exists st chunk_id = (200, st chunk_id \<noteq> None)"

text \<open>The nodes of the cluster, by address.\<close>

type_synonym cluster = "string \<Rightarrow> store"

subsection \<open>The metadata server (\<^verbatim>\<open>metadata5.py\<close>)\<close>

record chunk_info =
  chunk_servers :: "string list"
  version :: int
  primary :: string
  lease_expiration :: int

record metadata =
  file_to_chunks :: "(string \<times> string list) list"
  chunk_metadata :: "string \<rightharpoonup> chunk_info"

definition empty_metadata :: metadata where
  "empty_metadata = \<lparr>file_to_chunks = [], chunk_metadata = Map.empty\<rparr>"

text \<open>
  \<open>async_upload_chunk\<close>: posts the chunk to the node at \<open>node_url\<close> and drops the answer.
\<close>

definition async_upload_chunk :: "cluster \<Rightarrow> string \<Rightarrow> bytes \<Rightarrow> string \<Rightarrow> cluster" where
  "async_upload_chunk cl node_url chunk_data chunk_id =
     cl(node_url := fst (upload_chunk (cl node_url) (Some chunk_id) chunk_data))"

text \<open>
  \<open>create_file\<close>: \<open>POST /api/file\<close> with \<open>{path, size}\<close>. \<open>file_size\<close> is a Python
  integer and \<open>//\<close> is floor division, as \<open>div\<close> on \<open>int\<close>; \<open>range\<close> of a number below
  one is empty. The answer is the status, the path and the chunk identifiers.
\<close>

definition chunk_count_of :: "int \<Rightarrow> int" where
  "chunk_count_of file_size = (file_size + int CHUNK_SIZE - 1) div int CHUNK_SIZE"

definition available_nodes :: "string list" where
  "available_nodes = map fst NODE_MAP"

definition assign_chunk_servers :: "string list" where
  "assign_chunk_servers =
     map (\<lambda>i. available_nodes ! (i mod length available_nodes)) [0..<2]"

definition new_chunk_info :: "int \<Rightarrow> chunk_info" where
  "new_chunk_info now =
     \<lparr>chunk_servers = assign_chunk_servers,
      version = 0,
      primary = assign_chunk_servers ! 0,
      lease_expiration = now + LEASE_DURATION\<rparr>"

definition create_file ::
  "metadata \<Rightarrow> string \<Rightarrow> int \<Rightarrow> (nat \<Rightarrow> string) \<Rightarrow> int \<Rightarrow> metadata \<times> nat \<times> string \<times> string list"
where
  "create_file md file_path file_size uuid4 now =
     (let chunk_count = chunk_count_of file_size;
          chunks = map uuid4 [0..<nat chunk_count];
          ftc = AList.update file_path chunks (file_to_chunks md);
          cm = foldl (\<lambda>m chunk_id. m(chunk_id \<mapsto> new_chunk_info now)) (chunk_metadata md) chunks
      in (\<lparr>file_to_chunks = ftc, chunk_metadata = cm\<rparr>, 200, file_path, chunks))"

text \<open>
  \<open>get_file_metadata\<close>: \<open>GET /api/file?path=\<close>. The answer carries the \<open>size\<close> field
  and, for each chunk identifier that has a record, the identifier and its servers.
\<close>

record file_metadata =
  size_field :: int
  chunks :: "(string \<times> string list) list"

datatype get_answer = GetError string | GetOk string file_metadata

definition chunk_entry :: "metadata \<Rightarrow> string \<Rightarrow> (string \<times> string list) option" where
  "chunk_entry md chunk_id =
     (case chunk_metadata md chunk_id of
        None \<Rightarrow> None
      | Some info \<Rightarrow> Some (chunk_id, chunk_servers info))"

definition get_file_metadata :: "metadata \<Rightarrow> string \<Rightarrow> nat \<times> get_answer" where
  "get_file_metadata md file_path =
     (case map_of (file_to_chunks md) file_path of
        None \<Rightarrow> (404, GetError ''File not found'')
      | Some chunk_ids \<Rightarrow>
          (200, GetOk file_path
                  \<lparr>size_field = 0, chunks = List.map_filter (chunk_entry md) chunk_ids\<rparr>))"

text \<open>\<open>rename_file\<close>: \<open>PUT /api/file/rename\<close> with \<open>{old_path, new_path}\<close>.\<close>

definition rename_file :: "metadata \<Rightarrow> string \<Rightarrow> string \<Rightarrow> metadata \<times> nat" where
  "rename_file md old_path new_path =
     (case map_of (file_to_chunks md) old_path of
        None \<Rightarrow> (md, 404)
      | Some chunk_ids \<Rightarrow>
          (md\<lparr>file_to_chunks :=
                AList.delete old_path (AList.update new_path chunk_ids (file_to_chunks md))\<rparr>,
           200))"

text \<open>
  \<open>delete_file\<close>: \<open>DELETE /api/file?path=\<close>. The answer is the status and, on success,
  the list \<open>chunks_deleted\<close>. The handler sends no request to any node.
\<close>

definition delete_file :: "metadata \<Rightarrow> string \<Rightarrow> metadata \<times> nat \<times> string list option" where
  "delete_file md file_path =
     (case map_of (file_to_chunks md) file_path of
        None \<Rightarrow> (md, 404, None)
      | Some chunks_to_delete \<Rightarrow>
          (\<lparr>file_to_chunks = AList.delete file_path (file_to_chunks md),
            chunk_metadata =
              foldl (\<lambda>m chunk_id. if m chunk_id \<noteq> None then m(chunk_id := None) else m)
                (chunk_metadata md) chunks_to_delete\<rparr>,
           200, Some chunks_to_delete))"

text \<open>
  \<open>reconcile_chunks\<close>: one pass of the body of the \<open>while True\<close> loop, over the metadata
  loaded at its start. For a server of a chunk that answers the \<open>exists\<close> probe with
  anything but \<open>200\<close> and \<open>true\<close>, the first other entry of \<open>chunk_servers\<close> is the backup;
  its copy is fetched and, when the answer is \<open>200\<close>, posted to the server. A node
  identifier outside \<open>NODE_MAP\<close> raises \<open>KeyError\<close>, which the \<open>except\<close> clause around the
  body logs before the loop goes on with the next server.
\<close>

definition reconcile_node :: "string list \<Rightarrow> string \<Rightarrow> cluster \<Rightarrow> string \<Rightarrow> cluster" where
  "reconcile_node servers chunk_id cl node_id =
     (case map_of NODE_MAP node_id of
        None \<Rightarrow> cl
      | Some node_url \<Rightarrow>
          let response = check_chunk_exists (cl node_url) chunk_id in
          if fst response \<noteq> 200 \<or> \<not> snd response then
            (case List.find (\<lambda>potential_node_id. potential_node_id \<noteq> node_id) servers of
               None \<Rightarrow> cl
             | Some backup_node_id \<Rightarrow>
                 (case map_of NODE_MAP backup_node_id of
                    None \<Rightarrow> cl
                  | Some backup_url \<Rightarrow>
                      let backup_response = download_chunk (cl backup_url) chunk_id in
                      if fst backup_response = 200
                      then async_upload_chunk cl node_url (snd backup_response) chunk_id
                      else cl))
          else cl)"

definition reconcile_chunk :: "metadata \<Rightarrow> cluster \<Rightarrow> string \<Rightarrow> cluster" where
  "reconcile_chunk md cl chunk_id =
     (case chunk_metadata md chunk_id of
        None \<Rightarrow> cl
      | Some info \<Rightarrow>
          if chunk_servers info = [] then cl
          else foldl (reconcile_node (chunk_servers info) chunk_id) cl (chunk_servers info))"

definition reconcile_chunks :: "metadata \<Rightarrow> cluster \<Rightarrow> cluster" where
  "reconcile_chunks md cl =
     foldl (\<lambda>c (file_path, chunk_ids). foldl (reconcile_chunk md) c chunk_ids)
       cl (file_to_chunks md)"

subsection \<open>The gateway (\<^verbatim>\<open>api5.py\<close>)\<close>

record system =
  meta :: metadata
  cluster :: cluster

text \<open>\<open>os.path.join\<close> of a directory and a file name, with \<open>/\<close> as the separator.\<close>

definition path_join :: "string \<Rightarrow> string \<Rightarrow> string" where
  "path_join a b =
     (if take 1 b = ''/'' then b
      else if a = [] \<or> last a = CHR ''/'' then a @ b
      else a @ ''/'' @ b)"

text \<open>
  A started upload thread is the triple of arguments it passes to \<open>async_upload_chunk\<close>:
  node address, chunk bytes, chunk identifier. The threads of one upload write to a key
  in the order in which they were started.
\<close>

type_synonym thread = "string \<times> bytes \<times> string"

definition start_threads :: "bytes \<Rightarrow> string \<Rightarrow> thread list" where
  "start_threads chunk_data chunk_id =
     map (\<lambda>node_id. (the (map_of NODE_MAP node_id), chunk_data, chunk_id)) [''node1'', ''node2'']"

definition join_threads :: "cluster \<Rightarrow> thread list \<Rightarrow> cluster" where
  "join_threads cl threads =
     foldl (\<lambda>c (node_url, chunk_data, chunk_id). async_upload_chunk c node_url chunk_data chunk_id)
       cl threads"

text \<open>
  The \<open>while True\<close> loop of \<open>upload_file\<close>: \<open>file.read(CHUNK_SIZE)\<close> takes the next
  \<open>CHUNK_SIZE\<close> bytes of what is left of the file. The result is \<open>False\<close> when the loop
  leaves through the answer \<open>500\<close> for a chunk index beyond the registered chunks, and the
  threads started until then.
\<close>

function upload_loop :: "string list \<Rightarrow> bytes \<Rightarrow> nat \<Rightarrow> thread list \<Rightarrow> bool \<times> thread list" where
  "upload_loop chunk_ids file chunk_index threads =
     (if take CHUNK_SIZE file = [] then (True, threads)
      else if chunk_index \<ge> length chunk_ids then (False, threads)
      else upload_loop chunk_ids (drop CHUNK_SIZE file) (chunk_index + 1)
             (threads @ start_threads (take CHUNK_SIZE file) (chunk_ids ! chunk_index)))"
  by pat_completeness auto
termination
  by (relation "measure (\<lambda>(chunk_ids, file, chunk_index, threads). length file)")
     (auto simp: CHUNK_SIZE_def)

text \<open>
  The values that the successive calls of \<open>file.read(CHUNK_SIZE)\<close> return before the
  empty one that ends the loop.
\<close>

function read_chunks :: "bytes \<Rightarrow> bytes list" where
  "read_chunks file =
     (if take CHUNK_SIZE file = [] then []
      else take CHUNK_SIZE file # read_chunks (drop CHUNK_SIZE file))"
  by pat_completeness auto
termination
  by (relation "measure length") (auto simp: CHUNK_SIZE_def)

text \<open>
  The threads that an upload starts for a list of chunk identifiers and the chunk read
  for each of them, in the order in which the loop starts them.
\<close>

definition fan_out :: "string list \<Rightarrow> bytes list \<Rightarrow> thread list" where
  "fan_out chunk_ids parts =
     concat (map (\<lambda>(chunk_id, chunk_data). start_threads chunk_data chunk_id) (zip chunk_ids parts))"

text \<open>
  \<open>upload_file\<close>: \<open>POST /upload\<close>. The request carries the file part, if any, as its name
  and bytes, and the form field \<open>directory\<close>, if any.
\<close>

definition upload_file ::
  "system \<Rightarrow> (string \<times> bytes) option \<Rightarrow> string option \<Rightarrow> (nat \<Rightarrow> string) \<Rightarrow> int \<Rightarrow> system \<times> nat"
where
  "upload_file sys file_part directory_field uuid4 now =
     (case file_part of
        None \<Rightarrow> (sys, 400)
      | Some (filename, file) \<Rightarrow>
          let directory = (case directory_field of None \<Rightarrow> ''/dfs/'' | Some d \<Rightarrow> d) in
          if filename = [] then (sys, 400)
          else
            let file_size = int (length file);
                file_path = path_join directory filename;
                file_info = create_file (meta sys) file_path file_size uuid4 now;
                chunk_ids = snd (snd (snd file_info));
                run = upload_loop chunk_ids file 0 []
            in (\<lparr>meta = fst file_info, cluster = join_threads (cluster sys) (snd run)\<rparr>,
                if fst run then 200 else 500))"

text \<open>
  One pass of the body of the \<open>for chunk in chunks\<close> loop of \<open>download_file\<close>. The body
  binds \<open>file_data\<close> to a new \<open>bytearray\<close> before it extends it, so what the pass leaves in
  \<open>file_data\<close> does not depend on what the variable held before. \<open>Inl\<close> is an answer \<open>500\<close>
  from inside the loop.
\<close>

definition download_chunk_of :: "cluster \<Rightarrow> string \<times> string list \<Rightarrow> string + bytes" where
  "download_chunk_of cl chunk =
     (case snd chunk of
        [] \<Rightarrow> Inl ''Error downloading chunk''
      | node_id # others \<Rightarrow>
          let chunk_id = fst chunk; file_data = [] in
          (case map_of NODE_MAP node_id of
             None \<Rightarrow> Inl ''Error downloading chunk''
           | Some node_url \<Rightarrow>
               let response = check_chunk_exists (cl node_url) chunk_id in
               if fst response = 200 \<and> snd response
               then Inr (file_data @ snd (download_chunk (cl node_url) chunk_id))
               else
                 (case others of
                    [] \<Rightarrow> Inl ''Failed to retrieve chunk''
                  | backup_node # _ \<Rightarrow>
                      (case map_of NODE_MAP backup_node of
                         None \<Rightarrow> Inl ''Error downloading chunk''
                       | Some backup_url \<Rightarrow>
                           let backup_response = check_chunk_exists (cl backup_url) chunk_id in
                           if fst backup_response = 200 \<and> snd backup_response
                           then Inr (file_data @ snd (download_chunk (cl backup_url) chunk_id))
                           else Inl ''Failed to retrieve chunk''))))"

text \<open>
  The loop: \<open>file_data\<close> is \<open>None\<close> as long as the variable is unbound, which it is before
  the first pass.
\<close>

fun download_loop ::
  "cluster \<Rightarrow> (string \<times> string list) list \<Rightarrow> bytes option \<Rightarrow> string + bytes option"
where
  "download_loop cl [] file_data = Inr file_data"
| "download_loop cl (chunk # rest) file_data =
     (case download_chunk_of cl chunk of
        Inl message \<Rightarrow> Inl message
      | Inr file_data' \<Rightarrow> download_loop cl rest (Some file_data'))"

text \<open>
  \<open>download_file\<close>: \<open>GET /download/<path>\<close>, on the path after \<open>unquote\<close>. The answer is
  the status and, for \<open>200\<close>, the bytes sent. Reading the unbound \<open>file_data\<close> after the
  loop raises \<open>NameError\<close>, which the outer \<open>except\<close> clause turns into the answer \<open>500\<close>.
\<close>

definition download_file :: "system \<Rightarrow> string \<Rightarrow> nat \<times> bytes option" where
  "download_file sys file_path =
     (let decoded_path = (if take 1 file_path \<noteq> ''/'' then ''/'' @ file_path else file_path) in
      case snd (get_file_metadata (meta sys) decoded_path) of
        GetError _ \<Rightarrow> (404, None)
      | GetOk _ file_info \<Rightarrow>
          (case download_loop (cluster sys) (chunks file_info) None of
             Inl _ \<Rightarrow> (500, None)
           | Inr None \<Rightarrow> (500, None)
           | Inr (Some file_data) \<Rightarrow> (200, Some file_data)))"

text \<open>
  \<open>delete_file_web\<close>: \<open>POST /delete/<path>\<close>, which forwards to the metadata server and
  to nothing else.
\<close>

definition delete_file_web :: "system \<Rightarrow> string \<Rightarrow> system \<times> nat" where
  "delete_file_web sys file_path =
     (let response = delete_file (meta sys) file_path in
      (sys\<lparr>meta := fst response\<rparr>, if fst (snd response) = 200 then 200 else 400))"

subsection \<open>Sequences of metadata operations\<close>

text \<open>
  The chunk identifiers that some file entry lists. A call of one of the three handlers
  that change the metadata, with its arguments and, for \<open>create_file\<close>, the identifiers
  and the time it draws; the metadata state that a sequence of such calls leads to from
  the empty state. Nothing is assumed of the identifiers drawn.
\<close>

definition chunk_ids_in_use :: "metadata \<Rightarrow> string set" where
  "chunk_ids_in_use md = (\<Union>entry \<in> set (file_to_chunks md). set (snd entry))"

datatype operation =
    CreateFile string int "nat \<Rightarrow> string" int
  | RenameFile string string
  | DeleteFile string

fun apply_operation :: "metadata \<Rightarrow> operation \<Rightarrow> metadata" where
  "apply_operation md (CreateFile file_path file_size uuid4 now) =
     fst (create_file md file_path file_size uuid4 now)"
| "apply_operation md (RenameFile old_path new_path) = fst (rename_file md old_path new_path)"
| "apply_operation md (DeleteFile file_path) = fst (delete_file md file_path)"

definition run_operations :: "operation list \<Rightarrow> metadata" where
  "run_operations ops = foldl apply_operation empty_metadata ops"

text \<open>
  The two parts of the invariant of chunk records: every record names configured nodes
  only and has its primary among its servers; a chunk identifier is listed by the entry
  of at most one path.
\<close>

definition records_ok :: "metadata \<Rightarrow> bool" where
  "records_ok md \<longleftrightarrow>
     (\<forall>c info. chunk_metadata md c = Some info \<longrightarrow>
        set (chunk_servers info) \<subseteq> set (map fst NODE_MAP) \<and>
        primary info \<in> set (chunk_servers info))"

definition owners_ok :: "metadata \<Rightarrow> bool" where
  "owners_ok md \<longleftrightarrow>
     (\<forall>p q cs ds c. map_of (file_to_chunks md) p = Some cs \<and>
        map_of (file_to_chunks md) q = Some ds \<and> c \<in> set cs \<and> c \<in> set ds \<longrightarrow> p = q)"

subsection \<open>Sample inputs\<close>

text \<open>A generator of pairwise distinct, non-empty identifiers, for the concrete instances.\<close>

definition sample_uuid4 :: "nat \<Rightarrow> string" where
  "sample_uuid4 k = ''chunk-'' @ replicate k (CHR ''x'')"

definition empty_cluster :: cluster where
  "empty_cluster = (\<lambda>node_url. Map.empty)"

definition empty_system :: system where
  "empty_system = \<lparr>meta = empty_metadata, cluster = empty_cluster\<rparr>"

declare upload_loop.simps [simp del] read_chunks.simps [simp del]

subsection \<open>Properties of the chunk store\<close>

text \<open>
  C10. A Put with an empty body is answered with status 400, whatever the chunk
  identifier header is, and the blobs of the node are what they were.
\<close>

theorem upload_chunk_empty_rejected:
  "upload_chunk st header [] = (st, 400)"
  by (simp add: upload_chunk_def split: option.split)

subsection \<open>Creating a file\<close>

lemma assign_chunk_servers_eq: "assign_chunk_servers = [''node1'', ''node2'']"
  by (simp add: assign_chunk_servers_def available_nodes_def NODE_MAP_def upt_rec)
lemma chunk_count_of_1: "chunk_count_of 1 = 1" by (simp add: chunk_count_of_def CHUNK_SIZE_def)
lemma chunk_count_of_minus_1: "chunk_count_of (-1) = 0" by (simp add: chunk_count_of_def CHUNK_SIZE_def)
lemma chunk_count_of_9000000: "chunk_count_of 9000000 = 3" by (simp add: chunk_count_of_def CHUNK_SIZE_def)

lemma upt_0_3: "[0..<3] = [0, Suc 0, 2]"
  by (simp add: upt_conv_Cons numeral_3_eq_3 numeral_2_eq_2)
lemma sample_chunk_ids: "map sample_uuid4 [0..<nat (chunk_count_of 9000000)] = [''chunk-'', ''chunk-x'', ''chunk-xx'']"
  by (simp add: chunk_count_of_9000000 upt_0_3 sample_uuid4_def numeral_2_eq_2)

lemma foldl_record_chunks:
  "foldl (\<lambda>m chunk_id. m(chunk_id \<mapsto> v)) m chunk_ids =
     (\<lambda>k. if k \<in> set chunk_ids then Some v else m k)"
  by (induction chunk_ids arbitrary: m) (auto simp: fun_eq_iff)

lemma create_file_meta:
  "fst (create_file md p sz u t) =
     \<lparr>file_to_chunks = AList.update p (map u [0..<nat (chunk_count_of sz)]) (file_to_chunks md),
      chunk_metadata = (\<lambda>k. if k \<in> u ` {..<nat (chunk_count_of sz)} then Some (new_chunk_info t)
                            else chunk_metadata md k)\<rparr>"
  by (auto simp add: create_file_def Let_def foldl_record_chunks fun_eq_iff lessThan_atLeast0)

lemma create_file_answer:
  "snd (create_file md p sz u t) = (200, p, map u [0..<nat (chunk_count_of sz)])"
  by (simp add: create_file_def Let_def)

lemma neg_ceil_div: assumes "0 < (b::int)" shows "- (- a div b) = (a + b - 1) div b"
proof (cases "a mod b = 0")
  case True
  then have l: "- a div b = - (a div b)" using assms by (simp add: zdiv_zminus1_eq_if)
  have "a = b * (a div b) + a mod b" by simp
  with True have "a + b - 1 = b * (a div b) + (b - 1)" by simp
  then have "(a + b - 1) div b = a div b"
    using assms by (intro int_div_pos_eq [where r = "b - 1"]) auto
  with l show ?thesis by simp
next
  case False
  then have l: "- a div b = - (a div b) - 1" using assms by (simp add: zdiv_zminus1_eq_if)
  have "0 \<le> a mod b" "a mod b < b" using assms by simp_all
  with False have m: "0 < a mod b" "a mod b < b" by simp_all
  have "a = b * (a div b) + a mod b" by simp
  then have "a + b - 1 = b * (a div b + 1) + (a mod b - 1)" by (simp add: algebra_simps)
  then have "(a + b - 1) div b = a div b + 1"
    using assms m by (intro int_div_pos_eq [where r = "a mod b - 1"]) auto
  with l show ?thesis by simp
qed

lemma chunk_count_of_ceiling:
  "chunk_count_of file_size = \<lceil>real_of_int file_size / real CHUNK_SIZE\<rceil>"
proof -
  have pos: "0 < int CHUNK_SIZE" by (simp add: CHUNK_SIZE_def)
  have "\<lceil>real_of_int file_size / real CHUNK_SIZE\<rceil> = - (- file_size div int CHUNK_SIZE)"
    using ceiling_divide_eq_div [of file_size "int CHUNK_SIZE"] by simp
  also have "\<dots> = (file_size + int CHUNK_SIZE - 1) div int CHUNK_SIZE"
    using pos by (rule neg_ceil_div)
  finally show ?thesis by (simp add: chunk_count_of_def)
qed

lemma chunk_count_nonpos: "file_size \<le> 0 \<Longrightarrow> chunk_count_of file_size \<le> 0"
proof -
  assume "file_size \<le> 0"
  then have "(file_size + int CHUNK_SIZE - 1) div int CHUNK_SIZE \<le> (int CHUNK_SIZE - 1) div int CHUNK_SIZE"
    by (intro zdiv_mono1) (simp_all add: CHUNK_SIZE_def)
  also have "\<dots> = 0" by (simp add: CHUNK_SIZE_def)
  finally show ?thesis by (simp add: chunk_count_of_def)
qed

lemma chunk_count_pos: "0 < file_size \<Longrightarrow> 0 < chunk_count_of file_size"
  unfolding chunk_count_of_def CHUNK_SIZE_def
  by (simp add: pos_imp_zdiv_pos_iff)

text \<open>
  C4. Every chunk identifier that \<open>create_file\<close> generates gets a record whose servers
  are the entries \<open>i mod n\<close> of the configured node list for \<open>i = 0, 1\<close>: two distinct
  configured nodes, \<open>node1\<close> and \<open>node2\<close>. The first of them is the primary, the version is
  \<open>0\<close> and the lease expires \<open>LEASE_DURATION\<close> seconds after the time of the call.
\<close>

theorem create_file_placement:
  "\<forall>chunk_id \<in> set (snd (snd (snd (create_file md p sz u t)))).
     \<exists>info. chunk_metadata (fst (create_file md p sz u t)) chunk_id = Some info \<and>
       chunk_servers info = map (\<lambda>i. available_nodes ! (i mod length available_nodes)) [0..<2] \<and>
       chunk_servers info = [''node1'', ''node2''] \<and>
       length (chunk_servers info) = 2 \<and> distinct (chunk_servers info) \<and>
       set (chunk_servers info) \<subseteq> set available_nodes \<and>
       primary info = hd (chunk_servers info) \<and> version info = 0 \<and>
       lease_expiration info = t + LEASE_DURATION"
proof
  fix chunk_id
  assume "chunk_id \<in> set (snd (snd (snd (create_file md p sz u t))))"
  then have "chunk_id \<in> u ` {..<nat (chunk_count_of sz)}"
    by (simp add: create_file_answer lessThan_atLeast0)
  then have rec: "chunk_metadata (fst (create_file md p sz u t)) chunk_id = Some (new_chunk_info t)"
    by (simp add: create_file_meta)
  have rr: "chunk_servers (new_chunk_info t) =
      map (\<lambda>i. available_nodes ! (i mod length available_nodes)) [0..<2]"
    by (simp add: new_chunk_info_def assign_chunk_servers_def)
  have srv: "chunk_servers (new_chunk_info t) = [''node1'', ''node2'']"
    by (simp add: new_chunk_info_def assign_chunk_servers_eq)
  have known: "set (chunk_servers (new_chunk_info t)) \<subseteq> set available_nodes"
    unfolding srv by (simp add: available_nodes_def NODE_MAP_def)
  have len: "length (chunk_servers (new_chunk_info t)) = 2"
    and dist: "distinct (chunk_servers (new_chunk_info t))"
    unfolding srv by simp_all
  have prim: "primary (new_chunk_info t) = hd (chunk_servers (new_chunk_info t))"
    unfolding srv by (simp add: new_chunk_info_def assign_chunk_servers_eq)
  have rest: "version (new_chunk_info t) = 0"
    "lease_expiration (new_chunk_info t) = t + LEASE_DURATION"
    by (simp_all add: new_chunk_info_def)
  from rec rr srv len dist known prim rest
  show "\<exists>info. chunk_metadata (fst (create_file md p sz u t)) chunk_id = Some info \<and>
       chunk_servers info = map (\<lambda>i. available_nodes ! (i mod length available_nodes)) [0..<2] \<and>
       chunk_servers info = [''node1'', ''node2''] \<and>
       length (chunk_servers info) = 2 \<and> distinct (chunk_servers info) \<and>
       set (chunk_servers info) \<subseteq> set available_nodes \<and>
       primary info = hd (chunk_servers info) \<and> version info = 0 \<and>
       lease_expiration info = t + LEASE_DURATION"
    by blast
qed

theorem create_file_placement_witness:
  "sample_uuid4 2 \<in> set (snd (snd (snd (create_file empty_metadata ''/dfs/a.bin'' 9000000 sample_uuid4 1000)))) \<and>
   chunk_metadata (fst (create_file empty_metadata ''/dfs/a.bin'' 9000000 sample_uuid4 1000)) (sample_uuid4 2)
     = Some \<lparr>chunk_servers = [''node1'', ''node2''], version = 0, primary = ''node1'',
             lease_expiration = 1060\<rparr>"
proof -
  have mem: "sample_uuid4 2 \<in> set (snd (snd (snd (create_file empty_metadata ''/dfs/a.bin'' 9000000 sample_uuid4 1000))))"
    by (simp add: create_file_def Let_def chunk_count_of_9000000)
  from create_file_placement [of empty_metadata "''/dfs/a.bin''" 9000000 sample_uuid4 1000] mem
  obtain info where "chunk_metadata (fst (create_file empty_metadata ''/dfs/a.bin'' 9000000 sample_uuid4 1000)) (sample_uuid4 2) = Some info"
    "chunk_servers info = [''node1'', ''node2'']" "primary info = hd (chunk_servers info)"
    "version info = 0" "lease_expiration info = 1000 + LEASE_DURATION"
    by blast
  then show ?thesis using mem by (simp add: LEASE_DURATION_def)
qed

text \<open>
  C5, as the claim states it, fails: a negative size is not rejected. \<open>create_file\<close>
  with size \<open>-1\<close> answers \<open>200\<close> and registers the path with no chunks.
\<close>

theorem create_file_negative_size_counterexample:
  "fst (snd (create_file empty_metadata ''/dfs/a.bin'' (- 1) sample_uuid4 0)) = 200 \<and>
   fst (snd (create_file empty_metadata ''/dfs/a.bin'' (- 1) sample_uuid4 0)) \<noteq> 400 \<and>
   map_of (file_to_chunks (fst (create_file empty_metadata ''/dfs/a.bin'' (- 1) sample_uuid4 0)))
     ''/dfs/a.bin'' = Some []"
  by (simp add: create_file_def Let_def chunk_count_of_minus_1 empty_metadata_def)

text \<open>
  C5, amended. \<open>create_file\<close> answers \<open>200\<close> for every size. For a size of zero or
  below it registers the path with an empty chunk sequence; for a size above zero the
  number of chunk identifiers is the ceiling of the size over \<open>CHUNK_SIZE\<close>, and the
  path is registered with exactly these identifiers.
\<close>

theorem create_file_chunk_count:
  "fst (snd (create_file md p sz u t)) = 200 \<and>
   (sz \<le> 0 \<longrightarrow>
      snd (snd (snd (create_file md p sz u t))) = [] \<and>
      map_of (file_to_chunks (fst (create_file md p sz u t))) p = Some []) \<and>
   (0 < sz \<longrightarrow>
      int (length (snd (snd (snd (create_file md p sz u t))))) =
        \<lceil>real_of_int sz / real CHUNK_SIZE\<rceil> \<and>
      map_of (file_to_chunks (fst (create_file md p sz u t))) p =
        Some (snd (snd (snd (create_file md p sz u t)))))"
proof (intro conjI impI)
  show "fst (snd (create_file md p sz u t)) = 200" by (simp add: create_file_answer)
next
  assume "sz \<le> 0"
  then have "nat (chunk_count_of sz) = 0" using chunk_count_nonpos [of sz] by simp
  then show "snd (snd (snd (create_file md p sz u t))) = []"
    and "map_of (file_to_chunks (fst (create_file md p sz u t))) p = Some []"
    by (simp_all add: create_file_answer create_file_meta update_conv')
next
  assume "0 < sz"
  then have "0 < chunk_count_of sz" by (rule chunk_count_pos)
  then show "int (length (snd (snd (snd (create_file md p sz u t))))) =
        \<lceil>real_of_int sz / real CHUNK_SIZE\<rceil>"
    by (simp add: create_file_answer chunk_count_of_ceiling [symmetric])
  show "map_of (file_to_chunks (fst (create_file md p sz u t))) p =
        Some (snd (snd (snd (create_file md p sz u t))))"
    by (simp add: create_file_answer create_file_meta update_conv')
qed

theorem create_file_chunk_count_witness:
  "(- 1 :: int) \<le> 0 \<and>
   snd (snd (snd (create_file empty_metadata ''/dfs/a.bin'' (- 1) sample_uuid4 0))) = [] \<and>
   (0 :: int) < 9000000 \<and>
   length (snd (snd (snd (create_file empty_metadata ''/dfs/a.bin'' 9000000 sample_uuid4 0)))) = 3"
  using create_file_chunk_count [of empty_metadata "''/dfs/a.bin''" "- 1" sample_uuid4 0]
    create_file_chunk_count [of empty_metadata "''/dfs/a.bin''" 9000000 sample_uuid4 0]
  by (simp add: CHUNK_SIZE_def)

subsection \<open>Reading the metadata of a file\<close>

lemma get_file_metadata_size_zero:
  "get_file_metadata md p = (200, GetOk q fm) \<Longrightarrow> size_field fm = 0"
  by (auto simp: get_file_metadata_def split: option.splits)

text \<open>
  C7 does not hold of the code: the \<open>size\<close> field of the answer of \<open>get_file_metadata\<close>
  is the constant \<open>0\<close>. For a file created with 9000000 bytes the answer is \<open>200\<close> with
  size \<open>0\<close> and the three chunks of the file.
\<close>

theorem get_file_metadata_size_placeholder:
  "get_file_metadata (fst (create_file empty_metadata ''/dfs/a.bin'' 9000000 sample_uuid4 0))
     ''/dfs/a.bin'' =
   (200, GetOk ''/dfs/a.bin''
      \<lparr>size_field = 0,
       chunks = [(''chunk-'', [''node1'', ''node2'']),
                 (''chunk-x'', [''node1'', ''node2'']),
                 (''chunk-xx'', [''node1'', ''node2''])]\<rparr>)"
  by (simp add: get_file_metadata_def create_file_def Let_def sample_chunk_ids empty_metadata_def
      List.map_filter_simps chunk_entry_def new_chunk_info_def assign_chunk_servers_eq)

subsection \<open>Renaming a file\<close>

lemma chunk_entry_cong:
  "chunk_metadata md' = chunk_metadata md \<Longrightarrow> chunk_entry md' = chunk_entry md"
  by (simp add: chunk_entry_def fun_eq_iff)

text \<open>
  C6, amended. When the old path is absent, \<open>rename_file\<close> answers \<open>404\<close> and leaves the
  metadata as it was. When the old path is present and the new path is another path, it
  answers \<open>200\<close>; afterwards the new path holds the chunk sequence that the old path
  held, the old path is absent and \<open>get_file_metadata\<close> answers \<open>404\<close> for it, the chunk
  records are untouched, and \<open>get_file_metadata\<close> answers for the new path with the
  file metadata it answered with for the old path before.
\<close>

theorem rename_file_moves:
  "(map_of (file_to_chunks md) old_path = None \<longrightarrow>
      rename_file md old_path new_path = (md, 404)) \<and>
   (\<forall>chunk_ids. map_of (file_to_chunks md) old_path = Some chunk_ids \<and> new_path \<noteq> old_path \<longrightarrow>
      snd (rename_file md old_path new_path) = 200 \<and>
      map_of (file_to_chunks (fst (rename_file md old_path new_path))) new_path = Some chunk_ids \<and>
      map_of (file_to_chunks (fst (rename_file md old_path new_path))) old_path = None \<and>
      chunk_metadata (fst (rename_file md old_path new_path)) = chunk_metadata md \<and>
      get_file_metadata (fst (rename_file md old_path new_path)) old_path =
        (404, GetError ''File not found'') \<and>
      (\<exists>fm. get_file_metadata md old_path = (200, GetOk old_path fm) \<and>
            get_file_metadata (fst (rename_file md old_path new_path)) new_path =
              (200, GetOk new_path fm)))"
proof (intro conjI impI allI)
  assume "map_of (file_to_chunks md) old_path = None"
  then show "rename_file md old_path new_path = (md, 404)" by (simp add: rename_file_def)
next
  fix chunk_ids
  assume "map_of (file_to_chunks md) old_path = Some chunk_ids \<and> new_path \<noteq> old_path"
  then have a: "map_of (file_to_chunks md) old_path = Some chunk_ids" and ne: "new_path \<noteq> old_path"
    by simp_all
  let ?md = "fst (rename_file md old_path new_path)"
  have md': "?md = md\<lparr>file_to_chunks :=
                AList.delete old_path (AList.update new_path chunk_ids (file_to_chunks md))\<rparr>"
    using a by (simp add: rename_file_def)
  show "snd (rename_file md old_path new_path) = 200" using a by (simp add: rename_file_def)
  show new: "map_of (file_to_chunks ?md) new_path = Some chunk_ids"
    using ne by (simp add: md' update_conv' delete_conv')
  show old: "map_of (file_to_chunks ?md) old_path = None"
    by (simp add: md' delete_conv')
  show cm: "chunk_metadata ?md = chunk_metadata md" by (simp add: md')
  show "get_file_metadata ?md old_path = (404, GetError ''File not found'')"
    using old by (simp add: get_file_metadata_def)
  show "\<exists>fm. get_file_metadata md old_path = (200, GetOk old_path fm) \<and>
            get_file_metadata ?md new_path = (200, GetOk new_path fm)"
    using a new chunk_entry_cong [OF cm] by (simp add: get_file_metadata_def)
qed

theorem rename_file_moves_witness:
  "rename_file empty_metadata ''/dfs/a.bin'' ''/dfs/b.bin'' = (empty_metadata, 404) \<and>
   map_of (file_to_chunks (fst (create_file empty_metadata ''/dfs/a.bin'' 9000000 sample_uuid4 0)))
     ''/dfs/a.bin'' = Some [''chunk-'', ''chunk-x'', ''chunk-xx''] \<and>
   ''/dfs/b.bin'' \<noteq> ''/dfs/a.bin'' \<and>
   map_of (file_to_chunks (fst (rename_file
       (fst (create_file empty_metadata ''/dfs/a.bin'' 9000000 sample_uuid4 0))
       ''/dfs/a.bin'' ''/dfs/b.bin''))) ''/dfs/b.bin'' = Some [''chunk-'', ''chunk-x'', ''chunk-xx''] \<and>
   get_file_metadata (fst (rename_file
       (fst (create_file empty_metadata ''/dfs/a.bin'' 9000000 sample_uuid4 0))
       ''/dfs/a.bin'' ''/dfs/b.bin'')) ''/dfs/a.bin'' = (404, GetError ''File not found'')"
proof -
  have absent: "map_of (file_to_chunks empty_metadata) ''/dfs/a.bin'' = None"
    by (simp add: empty_metadata_def)
  have present: "map_of (file_to_chunks (fst (create_file empty_metadata ''/dfs/a.bin'' 9000000 sample_uuid4 0)))
     ''/dfs/a.bin'' = Some [''chunk-'', ''chunk-x'', ''chunk-xx'']"
    by (simp add: create_file_def Let_def sample_chunk_ids empty_metadata_def)
  have ne: "''/dfs/b.bin'' \<noteq> ''/dfs/a.bin''" by simp
  from rename_file_moves [of empty_metadata "''/dfs/a.bin''" "''/dfs/b.bin''"] absent
    rename_file_moves [of "fst (create_file empty_metadata ''/dfs/a.bin'' 9000000 sample_uuid4 0)"
      "''/dfs/a.bin''" "''/dfs/b.bin''"] present ne
  show ?thesis by blast
qed

text \<open>
  C6, as the claim states it for every new path, fails where the new path is the old
  path: \<open>rename_file\<close> answers \<open>200\<close> and the path holds no chunk sequence afterwards.
\<close>

theorem rename_file_same_path_counterexample:
  "map_of (file_to_chunks (fst (create_file empty_metadata ''/dfs/a.bin'' 9000000 sample_uuid4 0)))
     ''/dfs/a.bin'' = Some [''chunk-'', ''chunk-x'', ''chunk-xx''] \<and>
   snd (rename_file (fst (create_file empty_metadata ''/dfs/a.bin'' 9000000 sample_uuid4 0))
     ''/dfs/a.bin'' ''/dfs/a.bin'') = 200 \<and>
   map_of (file_to_chunks (fst (rename_file
       (fst (create_file empty_metadata ''/dfs/a.bin'' 9000000 sample_uuid4 0))
       ''/dfs/a.bin'' ''/dfs/a.bin''))) ''/dfs/a.bin'' = None"
  by (simp add: rename_file_def create_file_def Let_def sample_chunk_ids empty_metadata_def)

subsection \<open>Splitting a file into chunks\<close>

lemma CHUNK_SIZE_pos [simp]: "0 < CHUNK_SIZE" by (simp add: CHUNK_SIZE_def)

lemma CHUNK_SIZE_nonzero [simp]: "CHUNK_SIZE \<noteq> 0" by (simp add: CHUNK_SIZE_def)

lemma take_chunk_empty: "take CHUNK_SIZE file = [] \<longleftrightarrow> file = []"
  by simp

lemma read_chunks_Nil: "read_chunks [] = []"
  by (subst read_chunks.simps) simp

lemma read_chunks_step:
  "file \<noteq> [] \<Longrightarrow> read_chunks file = take CHUNK_SIZE file # read_chunks (drop CHUNK_SIZE file)"
  by (subst read_chunks.simps) (simp add: take_chunk_empty)

lemma concat_read_chunks: "concat (read_chunks file) = file"
proof (induction "file" rule: read_chunks.induct)
  case (1 "file")
  show ?case
  proof (cases "file = []")
    case True
    then show ?thesis by (simp add: read_chunks_Nil)
  next
    case False
    then show ?thesis using 1 by (simp add: read_chunks_step take_chunk_empty)
  qed
qed

lemma read_chunks_bounds:
  "d \<in> set (read_chunks file) \<Longrightarrow> 0 < length d \<and> length d \<le> CHUNK_SIZE"
proof (induction "file" rule: read_chunks.induct)
  case (1 "file")
  show ?case
  proof (cases "file = []")
    case True
    then show ?thesis using 1(2) by (simp add: read_chunks_Nil)
  next
    case False
    then show ?thesis using 1 CHUNK_SIZE_pos
      by (auto simp add: read_chunks_step take_chunk_empty)
  qed
qed

lemma read_chunks_full:
  "d \<in> set (butlast (read_chunks file)) \<Longrightarrow> length d = CHUNK_SIZE"
proof (induction "file" rule: read_chunks.induct)
  case (1 "file")
  show ?case
  proof (cases "file = []")
    case True
    then show ?thesis using 1(2) by (simp add: read_chunks_Nil)
  next
    case False
    note ne = this
    show ?thesis
    proof (cases "drop CHUNK_SIZE file = []")
      case True
      then show ?thesis using 1(2) ne by (simp add: read_chunks_step read_chunks_Nil)
    next
      case False
      then have "CHUNK_SIZE < length file" by simp
      moreover have "read_chunks (drop CHUNK_SIZE file) \<noteq> []"
        using False by (simp add: read_chunks_step)
      ultimately show ?thesis using 1 ne
        by (auto simp add: read_chunks_step take_chunk_empty)
    qed
  qed
qed

lemma length_read_chunks:
  "length (read_chunks file) = (length file + CHUNK_SIZE - 1) div CHUNK_SIZE"
proof (induction "file" rule: read_chunks.induct)
  case (1 "file")
  show ?case
  proof (cases "file = []")
    case True
    then show ?thesis using CHUNK_SIZE_pos by (simp add: read_chunks_Nil)
  next
    case False
    then have ih: "length (read_chunks (drop CHUNK_SIZE file)) =
        (length file - CHUNK_SIZE + CHUNK_SIZE - 1) div CHUNK_SIZE"
      using 1 by (simp add: take_chunk_empty)
    show ?thesis
    proof (cases "CHUNK_SIZE \<le> length file")
      case True
      then have "length file + CHUNK_SIZE - 1 = (length file - 1) + CHUNK_SIZE"
        using CHUNK_SIZE_pos by arith
      then have "(length file + CHUNK_SIZE - 1) div CHUNK_SIZE = Suc ((length file - 1) div CHUNK_SIZE)"
        using CHUNK_SIZE_pos by simp
      moreover have "length file - CHUNK_SIZE + CHUNK_SIZE - 1 = length file - 1" using True by simp
      ultimately show ?thesis using False ih by (simp add: read_chunks_step)
    next
      case False
      then have lt: "length file < CHUNK_SIZE" by simp
      have pos: "0 < length file" using \<open>file \<noteq> []\<close> by simp
      have "length file + CHUNK_SIZE - 1 = (length file - 1) + CHUNK_SIZE" using pos by arith
      then have "(length file + CHUNK_SIZE - 1) div CHUNK_SIZE = Suc ((length file - 1) div CHUNK_SIZE)"
        using CHUNK_SIZE_pos by simp
      also have "\<dots> = 1" using lt by simp
      finally show ?thesis using \<open>file \<noteq> []\<close> lt by (simp add: read_chunks_step read_chunks_Nil)
    qed
  qed
qed

lemma length_read_chunks_count:
  "int (length (read_chunks file)) = chunk_count_of (int (length file))"
proof -
  have "1 \<le> length file + CHUNK_SIZE" using CHUNK_SIZE_pos by arith
  then have "int (length file + CHUNK_SIZE - 1) = int (length file) + int CHUNK_SIZE - 1"
    by (simp add: of_nat_diff)
  then have "int ((length file + CHUNK_SIZE - 1) div CHUNK_SIZE) =
      (int (length file) + int CHUNK_SIZE - 1) div int CHUNK_SIZE"
    by (simp add: zdiv_int)
  then show ?thesis by (simp add: length_read_chunks chunk_count_of_def)
qed

lemma upload_loop_threads:
  "length (read_chunks file) + chunk_index \<le> length chunk_ids \<Longrightarrow>
   upload_loop chunk_ids file chunk_index threads =
     (True, threads @ fan_out (drop chunk_index chunk_ids) (read_chunks file))"
proof (induction chunk_ids "file" chunk_index threads rule: upload_loop.induct)
  case (1 chunk_ids "file" chunk_index threads)
  show ?case
  proof (cases "file = []")
    case True
    then show ?thesis
      by (subst upload_loop.simps) (simp add: read_chunks_Nil fan_out_def)
  next
    case False
    then have rc: "read_chunks file = take CHUNK_SIZE file # read_chunks (drop CHUNK_SIZE file)"
      by (rule read_chunks_step)
    with 1(2) have lt: "chunk_index < length chunk_ids"
      and le: "length (read_chunks (drop CHUNK_SIZE file)) + (chunk_index + 1) \<le> length chunk_ids"
      by simp_all
    have dr: "drop chunk_index chunk_ids = chunk_ids ! chunk_index # drop (chunk_index + 1) chunk_ids"
      using lt by (simp add: Cons_nth_drop_Suc)
    have ih: "upload_loop chunk_ids (drop CHUNK_SIZE file) (chunk_index + 1)
        (threads @ start_threads (take CHUNK_SIZE file) (chunk_ids ! chunk_index)) =
      (True, (threads @ start_threads (take CHUNK_SIZE file) (chunk_ids ! chunk_index)) @
         fan_out (drop (chunk_index + 1) chunk_ids) (read_chunks (drop CHUNK_SIZE file)))"
      using 1(1) False lt le by (simp add: take_chunk_empty)
    show ?thesis
      apply (subst upload_loop.simps)
      apply (subst rc)
      apply (subst dr)
      using False lt ih by (simp add: take_chunk_empty fan_out_def)
  qed
qed

subsection \<open>Writes of an upload and reads of a download\<close>

lemma node_urls:
  "map_of NODE_MAP ''node1'' = Some ''http://localhost:5001''"
  "map_of NODE_MAP ''node2'' = Some ''http://localhost:5002''"
  "map_of NODE_MAP ''node3'' = Some ''http://localhost:5003''"
  by (simp_all add: NODE_MAP_def)

lemma start_threads_eq:
  "start_threads chunk_data chunk_id =
     [(''http://localhost:5001'', chunk_data, chunk_id),
      (''http://localhost:5002'', chunk_data, chunk_id)]"
  by (simp add: start_threads_def node_urls)

lemma async_upload_chunk_keeps:
  "cl node_url k \<noteq> None \<Longrightarrow> async_upload_chunk cl u d c node_url k \<noteq> None"
  by (auto simp add: async_upload_chunk_def upload_chunk_def)

lemma async_upload_chunk_stores:
  "d \<noteq> [] \<Longrightarrow> c \<noteq> [] \<Longrightarrow> async_upload_chunk cl u d c u c = Some d"
  by (simp add: async_upload_chunk_def upload_chunk_def)

lemma async_upload_chunk_other:
  "u' \<noteq> u \<or> k \<noteq> c \<Longrightarrow> async_upload_chunk cl u d c u' k = cl u' k"
  by (auto simp add: async_upload_chunk_def upload_chunk_def)

lemma join_threads_Nil: "join_threads cl [] = cl"
  by (simp add: join_threads_def)

lemma join_threads_Cons:
  "join_threads cl ((u, d, c) # ts) = join_threads (async_upload_chunk cl u d c) ts"
  by (simp add: join_threads_def)

lemma join_threads_append:
  "join_threads cl (ts @ ts') = join_threads (join_threads cl ts) ts'"
  by (simp add: join_threads_def)

lemma join_threads_keeps:
  "cl node_url k \<noteq> None \<Longrightarrow> join_threads cl ts node_url k \<noteq> None"
proof (induction ts arbitrary: cl)
  case Nil
  then show ?case by (simp add: join_threads_Nil)
next
  case (Cons t ts)
  obtain u d c where t: "t = (u, d, c)" by (cases t)
  show ?case unfolding t join_threads_Cons
    by (rule Cons.IH) (rule async_upload_chunk_keeps, rule Cons.prems)
qed

lemma join_threads_present:
  "(u, d, c) \<in> set ts \<Longrightarrow> d \<noteq> [] \<Longrightarrow> c \<noteq> [] \<Longrightarrow> join_threads cl ts u c \<noteq> None"
proof (induction ts arbitrary: cl)
  case Nil
  then show ?case by simp
next
  case (Cons t ts)
  obtain u' d' c' where t: "t = (u', d', c')" by (cases t)
  show ?case
  proof (cases "t = (u, d, c)")
    case True
    have "async_upload_chunk cl u d c u c \<noteq> None"
      using Cons.prems by (simp add: async_upload_chunk_stores)
    then show ?thesis unfolding True join_threads_Cons by (rule join_threads_keeps)
  next
    case False
    then have "(u, d, c) \<in> set ts" using Cons.prems by simp
    then show ?thesis unfolding t join_threads_Cons using Cons.prems by (intro Cons.IH)
  qed
qed

lemma join_threads_last:
  "d \<noteq> [] \<Longrightarrow> c \<noteq> [] \<Longrightarrow>
   join_threads cl (ts @ start_threads d c) ''http://localhost:5001'' c = Some d"
  by (simp add: join_threads_append start_threads_eq join_threads_Cons join_threads_Nil
      async_upload_chunk_other async_upload_chunk_stores)

lemma fan_out_snoc:
  "length chunk_ids = length parts \<Longrightarrow>
   fan_out (chunk_ids @ [c]) (parts @ [d]) = fan_out chunk_ids parts @ start_threads d c"
  by (simp add: fan_out_def)

lemma fan_out_member:
  "k < length chunk_ids \<Longrightarrow> k < length parts \<Longrightarrow>
   (''http://localhost:5001'', parts ! k, chunk_ids ! k) \<in> set (fan_out chunk_ids parts)"
proof -
  assume a: "k < length chunk_ids" "k < length parts"
  then have "(chunk_ids ! k, parts ! k) \<in> set (zip chunk_ids parts)"
    by (auto simp: set_zip)
  then show ?thesis
    unfolding fan_out_def by (force simp: start_threads_eq)
qed

lemma download_chunk_of_primary:
  "cl ''http://localhost:5001'' chunk_id = Some d \<Longrightarrow>
   download_chunk_of cl (chunk_id, ''node1'' # others) = Inr d"
  by (simp add: download_chunk_of_def node_urls check_chunk_exists_def download_chunk_def)

lemma download_loop_last:
  "cs \<noteq> [] \<Longrightarrow> \<forall>chunk \<in> set cs. \<exists>d. download_chunk_of cl chunk = Inr d \<Longrightarrow>
   download_chunk_of cl (last cs) = Inr d \<Longrightarrow>
   download_loop cl cs file_data = Inr (Some d)"
proof (induction cs arbitrary: file_data)
  case Nil
  then show ?case by simp
next
  case (Cons chunk cs)
  obtain d' where d': "download_chunk_of cl chunk = Inr d'" using Cons.prems(2) by auto
  show ?case
  proof (cases "cs = []")
    case True
    then show ?thesis using Cons.prems(3) by simp
  next
    case False
    then have "download_loop cl cs (Some d') = Inr (Some d)"
      using Cons.prems by (intro Cons.IH) simp_all
    then show ?thesis using d' by simp
  qed
qed

lemma download_loop_empty: "download_loop cl [] None = Inr None"
  by simp

subsection \<open>The upload loop\<close>

lemma create_file_chunk_ids:
  "snd (snd (snd (create_file md p (int (length file)) u t))) =
     map u [0..<length (read_chunks file)]"
proof -
  have "nat (chunk_count_of (int (length file))) = length (read_chunks file)"
    using length_read_chunks_count [of "file"] by simp
  then show ?thesis by (simp add: create_file_def Let_def)
qed

lemma upload_loop_registered:
  "upload_loop (snd (snd (snd (create_file md p (int (length file)) u t)))) file 0 [] =
     (True, fan_out (map u [0..<length (read_chunks file)]) (read_chunks file))"
  using upload_loop_threads [of "file" 0 "map u [0..<length (read_chunks file)]" "[]"]
  by (simp add: create_file_chunk_ids)

lemma read_chunks_two:
  "read_chunks (replicate CHUNK_SIZE x @ [y]) = [replicate CHUNK_SIZE x, [y]]"
proof -
  have t: "take CHUNK_SIZE [y] = [y]" and d: "drop CHUNK_SIZE [y] = []"
    using CHUNK_SIZE_pos by (simp_all add: Suc_le_eq)
  have "read_chunks [y] = take CHUNK_SIZE [y] # read_chunks (drop CHUNK_SIZE [y])"
    by (rule read_chunks_step) simp
  also have "\<dots> = [[y]]" unfolding t d read_chunks_Nil ..
  finally have one: "read_chunks [y] = [[y]]" .
  have "read_chunks (replicate CHUNK_SIZE x @ [y]) =
      take CHUNK_SIZE (replicate CHUNK_SIZE x @ [y]) #
      read_chunks (drop CHUNK_SIZE (replicate CHUNK_SIZE x @ [y]))"
    by (rule read_chunks_step) simp
  also have "\<dots> = [replicate CHUNK_SIZE x, [y]]" by (simp add: one)
  finally show ?thesis .
qed

subsection \<open>Files as the metadata server lists them\<close>

lemma replicas_of_created:
  "k < nat (chunk_count_of sz) \<Longrightarrow>
   chunk_entry (fst (create_file md p sz u t)) (u k) = Some (u k, [''node1'', ''node2''])"
  by (simp add: chunk_entry_def create_file_meta new_chunk_info_def assign_chunk_servers_eq)

lemma get_created_file:
  "get_file_metadata (fst (create_file md p sz u t)) p =
     (200, GetOk p \<lparr>size_field = 0,
        chunks = map (\<lambda>k. (u k, [''node1'', ''node2''])) [0..<nat (chunk_count_of sz)]\<rparr>)"
proof -
  have "List.map_filter (chunk_entry (fst (create_file md p sz u t)))
          (map u [0..<nat (chunk_count_of sz)]) =
        map (\<lambda>k. (u k, [''node1'', ''node2''])) [0..<nat (chunk_count_of sz)]"
    unfolding List.map_filter_def
    by (simp add: replicas_of_created comp_def cong: map_cong filter_cong)
  then show ?thesis
    by (simp add: get_file_metadata_def create_file_meta [of md p sz u t] update_conv')
qed

subsection \<open>Uploading and then downloading\<close>

lemma upload_file_result:
  assumes "filename \<noteq> []"
  shows "upload_file sys (Some (filename, file)) directory_field u t =
    (\<lparr>meta = fst (create_file (meta sys)
              (path_join (case directory_field of None \<Rightarrow> ''/dfs/'' | Some d \<Rightarrow> d) filename)
              (int (length file)) u t),
      cluster = join_threads (cluster sys)
              (fan_out (map u [0..<length (read_chunks file)]) (read_chunks file))\<rparr>, 200)"
proof -
  have "upload_loop (map u [0..<length (read_chunks file)]) file 0 [] =
      (True, fan_out (map u [0..<length (read_chunks file)]) (read_chunks file))"
    using upload_loop_threads [of "file" 0 "map u [0..<length (read_chunks file)]" "[]"] by simp
  then show ?thesis
    using assms by (simp add: upload_file_def Let_def create_file_chunk_ids)
qed

lemma count_of_length:
  "nat (chunk_count_of (int (length file))) = length (read_chunks file)"
  using length_read_chunks_count [of "file"] by simp

lemma uploaded_cluster_has_chunks:
  assumes ids: "\<forall>k < length (read_chunks file). u k \<noteq> []"
    and k: "k < length (read_chunks file)"
  shows "join_threads cl (fan_out (map u [0..<length (read_chunks file)]) (read_chunks file))
           ''http://localhost:5001'' (u k) \<noteq> None"
proof -
  let ?parts = "read_chunks file"
  let ?ids = "map u [0..<length ?parts]"
  have "(''http://localhost:5001'', ?parts ! k, ?ids ! k) \<in> set (fan_out ?ids ?parts)"
    using k by (intro fan_out_member) simp_all
  moreover have "?ids ! k = u k" using k by simp
  moreover have "?parts ! k \<noteq> []"
    using read_chunks_bounds [of "?parts ! k" "file"] k by auto
  moreover have "u k \<noteq> []" using ids k by simp
  ultimately show ?thesis by (metis join_threads_present)
qed

lemma uploaded_cluster_last_chunk:
  assumes ids: "\<forall>k < length (read_chunks file). u k \<noteq> []"
    and ne: "file \<noteq> []"
  shows "join_threads cl (fan_out (map u [0..<length (read_chunks file)]) (read_chunks file))
           ''http://localhost:5001'' (u (length (read_chunks file) - 1)) =
         Some (last (read_chunks file))"
proof -
  let ?parts = "read_chunks file"
  let ?n = "length ?parts"
  have pne: "?parts \<noteq> []" using ne by (simp add: read_chunks_step)
  then have n: "0 < ?n" by simp
  then obtain m where m: "?n = Suc m" by (cases ?n) auto
  have parts: "?parts = butlast ?parts @ [last ?parts]" using pne by simp
  have idl: "map u [0..<?n] = map u [0..<m] @ [u m]" by (simp add: m)
  have len: "length (map u [0..<m]) = length (butlast ?parts)" by (simp add: m)
  have "fan_out (map u [0..<?n]) ?parts =
      fan_out (map u [0..<m] @ [u m]) (butlast ?parts @ [last ?parts])"
    using idl parts by simp
  also have "\<dots> = fan_out (map u [0..<m]) (butlast ?parts) @ start_threads (last ?parts) (u m)"
    using len by (rule fan_out_snoc)
  finally have fo: "fan_out (map u [0..<?n]) ?parts =
      fan_out (map u [0..<m]) (butlast ?parts) @ start_threads (last ?parts) (u m)" .
  have "last ?parts \<in> set ?parts" using pne by simp
  then have lne: "last ?parts \<noteq> []"
    using read_chunks_bounds [of "last ?parts" "file"] by auto
  have une: "u m \<noteq> []" using ids m by simp
  have "join_threads cl (fan_out (map u [0..<?n]) ?parts) ''http://localhost:5001'' (u m) =
      Some (last ?parts)"
    unfolding fo using lne une by (rule join_threads_last)
  then show ?thesis by (simp add: m)
qed

lemma download_after_upload:
  assumes fn: "filename \<noteq> []" and ne: "file \<noteq> []"
    and ids: "\<forall>k < length (read_chunks file). u k \<noteq> []"
    and p: "p = path_join (case directory_field of None \<Rightarrow> ''/dfs/'' | Some d \<Rightarrow> d) filename"
    and slash: "take 1 p = ''/''"
  shows "download_file (fst (upload_file sys (Some (filename, file)) directory_field u t)) p =
     (200, Some (last (read_chunks file)))"
proof -
  let ?parts = "read_chunks file"
  let ?n = "length ?parts"
  let ?cl = "join_threads (cluster sys) (fan_out (map u [0..<?n]) ?parts)"
  let ?md = "fst (create_file (meta sys) p (int (length file)) u t)"
  let ?cs = "map (\<lambda>k. (u k, [''node1'', ''node2''])) [0..<?n]"
  have sys': "fst (upload_file sys (Some (filename, file)) directory_field u t) =
      \<lparr>meta = ?md, cluster = ?cl\<rparr>"
    using upload_file_result [OF fn, of sys "file" directory_field u t] p by simp
  have get: "get_file_metadata ?md p = (200, GetOk p \<lparr>size_field = 0, chunks = ?cs\<rparr>)"
    using get_created_file [of "meta sys" p "int (length file)" u t]
    by (simp add: count_of_length)
  have pne: "?parts \<noteq> []" using ne by (simp add: read_chunks_step)
  then have n: "0 < ?n" by simp
  have csne: "?cs \<noteq> []" using n by simp
  have all: "\<forall>chunk \<in> set ?cs. \<exists>d. download_chunk_of ?cl chunk = Inr d"
  proof
    fix chunk assume "chunk \<in> set ?cs"
    then obtain k where k: "k < ?n" and c: "chunk = (u k, [''node1'', ''node2''])" by auto
    from uploaded_cluster_has_chunks [OF ids k, of "cluster sys"]
    obtain d where "?cl ''http://localhost:5001'' (u k) = Some d" by auto
    then have "download_chunk_of ?cl chunk = Inr d"
      unfolding c by (rule download_chunk_of_primary)
    then show "\<exists>d. download_chunk_of ?cl chunk = Inr d" ..
  qed
  have "last ?cs = (u (?n - 1), [''node1'', ''node2''])"
    using n by (simp add: last_map)
  then have lst: "download_chunk_of ?cl (last ?cs) = Inr (last ?parts)"
    using uploaded_cluster_last_chunk [OF ids ne, of "cluster sys"]
    by (simp add: download_chunk_of_primary)
  have loop: "download_loop ?cl ?cs None = Inr (Some (last ?parts))"
    using csne all lst by (rule download_loop_last)
  show ?thesis
    unfolding sys' using slash get loop by (simp add: download_file_def)
qed

lemma sample_uuid4_nonempty: "sample_uuid4 k \<noteq> []"
  by (simp add: sample_uuid4_def)

lemma default_path: "path_join ''/dfs/'' ''a.bin'' = ''/dfs/a.bin''"
  by (simp add: path_join_def)

lemma download_of_empty_file:
  "download_file (fst (upload_file empty_system (Some (''a.bin'', [])) None sample_uuid4 0))
     ''/dfs/a.bin'' = (500, None)"
proof -
  have up: "fst (upload_file empty_system (Some (''a.bin'', [])) None sample_uuid4 0) =
      \<lparr>meta = fst (create_file empty_metadata ''/dfs/a.bin'' 0 sample_uuid4 0),
        cluster = empty_cluster\<rparr>"
    using upload_file_result [of "''a.bin''" empty_system "[]" None sample_uuid4 0]
    by (simp add: default_path read_chunks_Nil fan_out_def join_threads_Nil empty_system_def)
  have "chunk_count_of 0 = 0" by (simp add: chunk_count_of_def CHUNK_SIZE_def)
  then have "get_file_metadata (fst (create_file empty_metadata ''/dfs/a.bin'' 0 sample_uuid4 0))
      ''/dfs/a.bin'' = (200, GetOk ''/dfs/a.bin'' \<lparr>size_field = 0, chunks = []\<rparr>)"
    using get_created_file [of empty_metadata "''/dfs/a.bin''" 0 sample_uuid4 0] by simp
  then show ?thesis unfolding up by (simp add: download_file_def)
qed

lemma single_chunk_round_trip:
  assumes "filename \<noteq> []" "file \<noteq> []" "length file \<le> CHUNK_SIZE"
    and "\<forall>k < length (read_chunks file). u k \<noteq> []"
    and "p = path_join (case directory_field of None \<Rightarrow> ''/dfs/'' | Some d \<Rightarrow> d) filename"
    and "take 1 p = ''/''"
  shows "download_file (fst (upload_file sys (Some (filename, file)) directory_field u t)) p =
     (200, Some file)"
proof -
  have "read_chunks file = take CHUNK_SIZE file # read_chunks (drop CHUNK_SIZE file)"
    using assms(2) by (rule read_chunks_step)
  then have "read_chunks file = [file]" using assms(3) by (simp add: read_chunks_Nil)
  then show ?thesis
    using download_after_upload [OF assms(1,2,4,5,6), of sys t] by simp
qed

text \<open>
  C1 does not hold of the code. A file of \<open>CHUNK_SIZE + 1\<close> bytes, \<open>CHUNK_SIZE\<close> bytes
  \<open>1\<close> followed by one byte \<open>2\<close>, is uploaded as \<open>a.bin\<close> into the default directory of
  the empty system and then downloaded: the answer is \<open>200\<close> with the single byte \<open>2\<close>,
  the last chunk, and not the bytes of the file.
\<close>

theorem download_keeps_last_chunk_only:
  "download_file
     (fst (upload_file empty_system (Some (''a.bin'', replicate CHUNK_SIZE 1 @ [2])) None
        sample_uuid4 0))
     ''/dfs/a.bin'' = (200, Some [2]) \<and>
   [2] \<noteq> replicate CHUNK_SIZE (1 :: byte) @ [2]"
proof -
  have "download_file
     (fst (upload_file empty_system (Some (''a.bin'', replicate CHUNK_SIZE 1 @ [2])) None
        sample_uuid4 0))
     ''/dfs/a.bin'' = (200, Some (last (read_chunks (replicate CHUNK_SIZE 1 @ [2]))))"
    by (rule download_after_upload) (simp_all add: sample_uuid4_nonempty default_path)
  moreover have "[2] \<noteq> replicate CHUNK_SIZE (1 :: byte) @ [2]"
    using CHUNK_SIZE_pos by (cases CHUNK_SIZE) simp_all
  ultimately show ?thesis by (simp add: read_chunks_two)
qed

subsection \<open>The chunks that an upload stores\<close>

lemma read_chunks_nth:
  "k < length (read_chunks file) \<Longrightarrow>
   read_chunks file ! k = take CHUNK_SIZE (drop (k * CHUNK_SIZE) file)"
proof (induction "file" arbitrary: k rule: read_chunks.induct)
  case (1 "file")
  show ?case
  proof (cases "file = []")
    case True
    then show ?thesis using 1(2) by (simp add: read_chunks_Nil)
  next
    case False
    then have rc: "read_chunks file = take CHUNK_SIZE file # read_chunks (drop CHUNK_SIZE file)"
      by (rule read_chunks_step)
    show ?thesis
    proof (cases k)
      case 0
      then show ?thesis by (simp add: rc)
    next
      case (Suc j)
      then have "j < length (read_chunks (drop CHUNK_SIZE file))" using 1(2) rc by simp
      then have "read_chunks (drop CHUNK_SIZE file) ! j =
          take CHUNK_SIZE (drop (j * CHUNK_SIZE) (drop CHUNK_SIZE file))"
        using 1(1) False by (simp add: take_chunk_empty)
      then show ?thesis by (simp add: rc Suc add.commute)
    qed
  qed
qed

lemma read_chunks_parts:
  "read_chunks file =
     map (\<lambda>k. take CHUNK_SIZE (drop (k * CHUNK_SIZE) file)) [0..<length (read_chunks file)]"
  by (rule nth_equalityI) (simp_all add: read_chunks_nth)

lemma chunk_number:
  "nat \<lceil>real (length file) / real CHUNK_SIZE\<rceil> = length (read_chunks file)"
  using chunk_count_of_ceiling [of "int (length file)"] length_read_chunks_count [of "file"]
  by simp

lemma fan_out_indexed:
  "fan_out (map u [0..<n]) (map part [0..<n]) =
     concat (map (\<lambda>k. [(''http://localhost:5001'', part k, u k),
                           (''http://localhost:5002'', part k, u k)]) [0..<n])"
  by (simp add: fan_out_def zip_map_map zip_same_conv_map comp_def start_threads_eq)

lemma join_threads_snoc:
  "join_threads cl (ts @ [(u, d, c)]) = async_upload_chunk (join_threads cl ts) u d c"
  by (simp add: join_threads_def)

lemma join_threads_only_writer:
  "(u, d, c) \<in> set ts \<Longrightarrow> d \<noteq> [] \<Longrightarrow> c \<noteq> [] \<Longrightarrow>
   \<forall>d'. (u, d', c) \<in> set ts \<longrightarrow> d' = d \<Longrightarrow>
   join_threads cl ts u c = Some d"
proof (induction ts rule: rev_induct)
  case Nil
  then show ?case by simp
next
  case (snoc t ts)
  obtain u' d' c' where t: "t = (u', d', c')" by (cases t)
  show ?case
  proof (cases "u' = u \<and> c' = c")
    case True
    then have "d' = d" using snoc.prems(4) t by simp
    then show ?thesis
      unfolding t join_threads_snoc using True snoc.prems(2,3)
      by (simp add: async_upload_chunk_stores)
  next
    case False
    then have mem: "(u, d, c) \<in> set ts" using snoc.prems(1) t by auto
    have only: "\<forall>e. (u, e, c) \<in> set ts \<longrightarrow> e = d" using snoc.prems(4) by simp
    have "join_threads cl ts u c = Some d"
      using mem snoc.prems(2) snoc.prems(3) only by (rule snoc.IH)
    moreover have "u \<noteq> u' \<or> c \<noteq> c'" using False by blast
    then have "async_upload_chunk (join_threads cl ts) u' d' c' u c = join_threads cl ts u c"
      by (rule async_upload_chunk_other)
    ultimately show ?thesis unfolding t join_threads_snoc by simp
  qed
qed


lemma sample_uuid4_inj: "inj sample_uuid4"
proof (rule injI)
  fix j k assume "sample_uuid4 j = sample_uuid4 k"
  then have "length (sample_uuid4 j) = length (sample_uuid4 k)" by simp
  then show "j = k" by (simp add: sample_uuid4_def)
qed

text \<open>
  C8. Let \<open>n\<close> be the ceiling of the size of the file over \<open>CHUNK_SIZE\<close> and let the
  \<open>k\<close>-th part of the file be its \<open>CHUNK_SIZE\<close> bytes from offset \<open>k * CHUNK_SIZE\<close> on, or
  what is left of them. For every file with a name, \<open>upload_file\<close> answers \<open>200\<close> and
  registers the path with \<open>n\<close> chunk identifiers; the cluster it leaves is the one that
  results from posting, for \<open>k = 0, \<dots>, n - 1\<close> in this order, the \<open>k\<close>-th part under the
  \<open>k\<close>-th identifier to the first and to the second node. Where the identifiers drawn are
  pairwise distinct and non-empty, both nodes hold the \<open>k\<close>-th part under the \<open>k\<close>-th
  identifier afterwards. Each of the \<open>n\<close> parts has at least one and at most \<open>CHUNK_SIZE\<close>
  bytes, each part but the last has exactly \<open>CHUNK_SIZE\<close> bytes, and the parts in order
  make up the file.
\<close>

theorem upload_file_chunking:
  "filename \<noteq> [] \<Longrightarrow>
   (let n = nat \<lceil>real (length file) / real CHUNK_SIZE\<rceil>;
        part = (\<lambda>k. take CHUNK_SIZE (drop (k * CHUNK_SIZE) file));
        after = fst (upload_file sys (Some (filename, file)) directory_field u t)
    in snd (upload_file sys (Some (filename, file)) directory_field u t) = 200 \<and>
       map_of (file_to_chunks (meta after))
         (path_join (case directory_field of None \<Rightarrow> ''/dfs/'' | Some d \<Rightarrow> d) filename) =
         Some (map u [0..<n]) \<and>
       cluster after =
         join_threads (cluster sys)
           (concat (map (\<lambda>k. [(''http://localhost:5001'', part k, u k),
                                  (''http://localhost:5002'', part k, u k)]) [0..<n])) \<and>
       (inj_on u {..<n} \<and> (\<forall>k<n. u k \<noteq> []) \<longrightarrow>
          (\<forall>k<n. cluster after ''http://localhost:5001'' (u k) = Some (part k) \<and>
                  cluster after ''http://localhost:5002'' (u k) = Some (part k))) \<and>
       (\<forall>k<n. 0 < length (part k) \<and> length (part k) \<le> CHUNK_SIZE) \<and>
       (\<forall>k. k + 1 < n \<longrightarrow> length (part k) = CHUNK_SIZE) \<and>
       concat (map part [0..<n]) = file)"
proof -
  assume fn: "filename \<noteq> []"
  define n where "n = nat \<lceil>real (length file) / real CHUNK_SIZE\<rceil>"
  define part where "part = (\<lambda>k. take CHUNK_SIZE (drop (k * CHUNK_SIZE) file))"
  define p where "p = path_join (case directory_field of None \<Rightarrow> ''/dfs/'' | Some d \<Rightarrow> d) filename"
  define threads where "threads =
    concat (map (\<lambda>k. [(''http://localhost:5001'', part k, u k),
                          (''http://localhost:5002'', part k, u k)]) [0..<n])"
  let ?up = "upload_file sys (Some (filename, file)) directory_field u t"
  have len: "length (read_chunks file) = n" by (simp add: n_def chunk_number)
  have parts: "read_chunks file = map part [0..<n]"
    using read_chunks_parts [of "file"] by (simp add: len part_def)
  have fo: "fan_out (map u [0..<n]) (read_chunks file) = threads"
    unfolding parts threads_def by (rule fan_out_indexed)
  have up: "?up = (\<lparr>meta = fst (create_file (meta sys) p (int (length file)) u t),
                   cluster = join_threads (cluster sys) threads\<rparr>, 200)"
    using upload_file_result [OF fn, of sys "file" directory_field u t]
    by (simp add: len fo p_def)
  have status: "snd ?up = 200" by (simp add: up)
  have entry: "map_of (file_to_chunks (meta (fst ?up))) p = Some (map u [0..<n])"
    by (simp add: up create_file_meta update_conv' count_of_length len)
  have cl: "cluster (fst ?up) = join_threads (cluster sys) threads" by (simp add: up)
  have bounds: "0 < length (part k) \<and> length (part k) \<le> CHUNK_SIZE" if "k < n" for k
  proof -
    have "part k \<in> set (read_chunks file)" using that by (simp add: parts)
    then show ?thesis by (rule read_chunks_bounds)
  qed
  have full: "length (part k) = CHUNK_SIZE" if "k + 1 < n" for k
  proof -
    have "k < length (butlast (read_chunks file))" using that by (simp add: len)
    then have "butlast (read_chunks file) ! k \<in> set (butlast (read_chunks file))"
      by (rule nth_mem)
    moreover have "butlast (read_chunks file) ! k = part k"
      using that by (simp add: nth_butlast len parts)
    ultimately show ?thesis using read_chunks_full [of "part k" "file"] by simp
  qed
  have whole: "concat (map part [0..<n]) = file"
    using concat_read_chunks [of "file"] by (simp add: parts)
  have stored: "cluster (fst ?up) ''http://localhost:5001'' (u k) = Some (part k) \<and>
                cluster (fst ?up) ''http://localhost:5002'' (u k) = Some (part k)"
    if inj: "inj_on u {..<n}" and ne: "\<forall>k<n. u k \<noteq> []" and k: "k < n" for k
  proof -
    have mem: "(url, part k, u k) \<in> set threads"
      if "url = ''http://localhost:5001'' \<or> url = ''http://localhost:5002''" for url
      using that k unfolding threads_def by auto
    have only: "\<forall>d. (url, d, u k) \<in> set threads \<longrightarrow> d = part k" for url
    proof (intro allI impI)
      fix d assume "(url, d, u k) \<in> set threads"
      then obtain j where j: "j < n" "u j = u k" "d = part j"
        unfolding threads_def by auto
      then have "j = k" using inj k by (auto dest: inj_onD)
      then show "d = part k" using j by simp
    qed
    have pk: "part k \<noteq> []" using bounds [OF k] by auto
    have uk: "u k \<noteq> []" using ne k by simp
    have "join_threads (cluster sys) threads url (u k) = Some (part k)"
      if "url = ''http://localhost:5001'' \<or> url = ''http://localhost:5002''" for url
      using mem [OF that] pk uk only by (rule join_threads_only_writer)
    then show ?thesis unfolding cl by simp
  qed
  show ?thesis
    unfolding Let_def n_def [symmetric] part_def [symmetric] p_def [symmetric]
    using status entry cl stored bounds full whole
    unfolding threads_def by blast
qed


theorem upload_file_chunking_witness:
  "''a.bin'' \<noteq> [] \<and>
   nat \<lceil>real (length (replicate CHUNK_SIZE (1 :: byte) @ [2])) / real CHUNK_SIZE\<rceil> = 2 \<and>
   sample_uuid4 0 \<noteq> sample_uuid4 1 \<and> sample_uuid4 0 \<noteq> [] \<and> sample_uuid4 1 \<noteq> [] \<and>
   snd (upload_file empty_system (Some (''a.bin'', replicate CHUNK_SIZE 1 @ [2])) None
          sample_uuid4 0) = 200 \<and>
   map_of (file_to_chunks (meta (fst (upload_file empty_system
          (Some (''a.bin'', replicate CHUNK_SIZE 1 @ [2])) None sample_uuid4 0))))
     ''/dfs/a.bin'' = Some [sample_uuid4 0, sample_uuid4 1] \<and>
   cluster (fst (upload_file empty_system (Some (''a.bin'', replicate CHUNK_SIZE 1 @ [2])) None
          sample_uuid4 0)) ''http://localhost:5001'' (sample_uuid4 0) =
     Some (replicate CHUNK_SIZE 1) \<and>
   cluster (fst (upload_file empty_system (Some (''a.bin'', replicate CHUNK_SIZE 1 @ [2])) None
          sample_uuid4 0)) ''http://localhost:5002'' (sample_uuid4 0) =
     Some (replicate CHUNK_SIZE 1) \<and>
   cluster (fst (upload_file empty_system (Some (''a.bin'', replicate CHUNK_SIZE 1 @ [2])) None
          sample_uuid4 0)) ''http://localhost:5001'' (sample_uuid4 1) = Some [2] \<and>
   cluster (fst (upload_file empty_system (Some (''a.bin'', replicate CHUNK_SIZE 1 @ [2])) None
          sample_uuid4 0)) ''http://localhost:5002'' (sample_uuid4 1) = Some [2] \<and>
   length (replicate CHUNK_SIZE (1 :: byte)) = CHUNK_SIZE \<and>
   length [2 :: byte] \<le> CHUNK_SIZE"
proof -
  let ?file = "replicate CHUNK_SIZE (1 :: byte) @ [2]"
  have fn: "''a.bin'' \<noteq> []" by simp
  have n: "nat \<lceil>real (length ?file) / real CHUNK_SIZE\<rceil> = 2"
    unfolding chunk_number read_chunks_two by simp
  have inj: "inj_on sample_uuid4 {..<2}"
    using sample_uuid4_inj by (rule inj_on_subset) simp
  have ne: "\<forall>k<2. sample_uuid4 k \<noteq> []" by (simp add: sample_uuid4_nonempty)
  have p0: "take CHUNK_SIZE (drop (0 * CHUNK_SIZE) ?file) = replicate CHUNK_SIZE 1" by simp
  have p1: "take CHUNK_SIZE (drop (1 * CHUNK_SIZE) ?file) = [2]"
    using CHUNK_SIZE_pos by (simp add: Suc_le_eq)
  have ids: "map sample_uuid4 [0..<2] = [sample_uuid4 0, sample_uuid4 1]"
    by (simp add: upt_rec)
  have k0: "(0 :: nat) < 2" and k1: "(1 :: nat) < 2" by simp_all
  note th = upload_file_chunking [OF fn, of "?file" empty_system None sample_uuid4 0,
      unfolded Let_def n]
  have st: "snd (upload_file empty_system (Some (''a.bin'', ?file)) None sample_uuid4 0) = 200"
    using th by (rule conjunct1)
  have "map_of (file_to_chunks (meta (fst (upload_file empty_system
          (Some (''a.bin'', ?file)) None sample_uuid4 0))))
      (path_join (case None of None \<Rightarrow> ''/dfs/'' | Some d \<Rightarrow> d) ''a.bin'') =
      Some (map sample_uuid4 [0..<2])"
    using th [THEN conjunct2] by (rule conjunct1)
  then have ent: "map_of (file_to_chunks (meta (fst (upload_file empty_system
          (Some (''a.bin'', ?file)) None sample_uuid4 0)))) ''/dfs/a.bin'' =
      Some [sample_uuid4 0, sample_uuid4 1]"
    by (simp add: default_path ids)
  note stored = th [THEN conjunct2, THEN conjunct2, THEN conjunct2, THEN conjunct1, rule_format,
      OF conjI [OF inj ne]]
  have s0: "cluster (fst (upload_file empty_system (Some (''a.bin'', ?file)) None
          sample_uuid4 0)) ''http://localhost:5001'' (sample_uuid4 0) =
        Some (replicate CHUNK_SIZE 1) \<and>
      cluster (fst (upload_file empty_system (Some (''a.bin'', ?file)) None
          sample_uuid4 0)) ''http://localhost:5002'' (sample_uuid4 0) =
        Some (replicate CHUNK_SIZE 1)"
    using stored [OF k0] unfolding p0 .
  have s1: "cluster (fst (upload_file empty_system (Some (''a.bin'', ?file)) None
          sample_uuid4 0)) ''http://localhost:5001'' (sample_uuid4 1) = Some [2] \<and>
      cluster (fst (upload_file empty_system (Some (''a.bin'', ?file)) None
          sample_uuid4 0)) ''http://localhost:5002'' (sample_uuid4 1) = Some [2]"
    using stored [OF k1] unfolding p1 .
  have l1: "length [2 :: byte] \<le> CHUNK_SIZE" using CHUNK_SIZE_pos by (simp add: Suc_le_eq)
  have d01: "sample_uuid4 0 \<noteq> sample_uuid4 1" by (simp add: sample_uuid4_def)
  from fn n d01 sample_uuid4_nonempty st ent s0 s1 l1 show ?thesis by simp
qed

subsection \<open>Deleting a file\<close>

lemma foldl_drop_records:
  "foldl (\<lambda>m chunk_id. if m chunk_id \<noteq> None then m(chunk_id := None) else m) m chunk_ids =
     (\<lambda>k. if k \<in> set chunk_ids then None else m k)"
  by (induction chunk_ids arbitrary: m) (auto simp: fun_eq_iff)

lemma delete_file_absent:
  "map_of (file_to_chunks md) p = None \<Longrightarrow> delete_file md p = (md, 404, None)"
  by (simp add: delete_file_def)

lemma delete_file_present:
  assumes "map_of (file_to_chunks md) p = Some chunk_ids"
  shows "fst (snd (delete_file md p)) = 200"
    and "snd (snd (delete_file md p)) = Some chunk_ids"
    and "map_of (file_to_chunks (fst (delete_file md p))) p = None"
    and "\<forall>c \<in> set chunk_ids. chunk_metadata (fst (delete_file md p)) c = None"
    and "get_file_metadata (fst (delete_file md p)) p = (404, GetError ''File not found'')"
  using assms unfolding delete_file_def foldl_drop_records
  by (simp_all add: delete_conv' get_file_metadata_def)

text \<open>
  C2 does not hold of the code: no request to delete a chunk reaches any node. A file of
  one byte is uploaded as \<open>a.bin\<close> into the default directory of the empty system, which
  stores its chunk on the first node; deleting \<open>/dfs/a.bin\<close> is answered with \<open>200\<close>, by
  the gateway and by the metadata server, and afterwards both replica nodes still hold
  the chunk.
\<close>

theorem delete_leaves_blobs_on_nodes:
  "snd (upload_file empty_system (Some (''a.bin'', [7])) None sample_uuid4 0) = 200 \<and>
   cluster (fst (upload_file empty_system (Some (''a.bin'', [7])) None sample_uuid4 0))
     ''http://localhost:5001'' (sample_uuid4 0) = Some [7] \<and>
   snd (delete_file_web
     (fst (upload_file empty_system (Some (''a.bin'', [7])) None sample_uuid4 0))
     ''/dfs/a.bin'') = 200 \<and>
   fst (snd (delete_file
     (meta (fst (upload_file empty_system (Some (''a.bin'', [7])) None sample_uuid4 0)))
     ''/dfs/a.bin'')) = 200 \<and>
   cluster (fst (delete_file_web
     (fst (upload_file empty_system (Some (''a.bin'', [7])) None sample_uuid4 0))
     ''/dfs/a.bin'')) ''http://localhost:5001'' (sample_uuid4 0) = Some [7] \<and>
   cluster (fst (delete_file_web
     (fst (upload_file empty_system (Some (''a.bin'', [7])) None sample_uuid4 0))
     ''/dfs/a.bin'')) ''http://localhost:5002'' (sample_uuid4 0) = Some [7]"
proof -
  have t: "take CHUNK_SIZE [7 :: byte] = [7]" and d: "drop CHUNK_SIZE [7 :: byte] = []"
    using CHUNK_SIZE_pos by (simp_all add: Suc_le_eq)
  have "read_chunks [7] = take CHUNK_SIZE [7] # read_chunks (drop CHUNK_SIZE [7])"
    by (rule read_chunks_step) simp
  then have rc: "read_chunks [7] = [[7]]" unfolding t d read_chunks_Nil .
  have up: "upload_file empty_system (Some (''a.bin'', [7])) None sample_uuid4 0 =
      (\<lparr>meta = fst (create_file empty_metadata ''/dfs/a.bin'' 1 sample_uuid4 0),
        cluster = join_threads empty_cluster (start_threads [7] (sample_uuid4 0))\<rparr>, 200)"
    using upload_file_result [of "''a.bin''" empty_system "[7]" None sample_uuid4 0]
    by (simp add: default_path rc fan_out_def empty_system_def)
  have md: "fst (create_file empty_metadata ''/dfs/a.bin'' 1 sample_uuid4 0) =
      \<lparr>file_to_chunks = [(''/dfs/a.bin'', [sample_uuid4 0])],
        chunk_metadata = [sample_uuid4 0 \<mapsto> new_chunk_info 0]\<rparr>"
    by (simp add: create_file_def Let_def chunk_count_of_1 empty_metadata_def)
  have cl: "join_threads empty_cluster (start_threads [7] (sample_uuid4 0))
        ''http://localhost:5001'' (sample_uuid4 0) = Some [7]"
      "join_threads empty_cluster (start_threads [7] (sample_uuid4 0))
        ''http://localhost:5002'' (sample_uuid4 0) = Some [7]"
    by (simp_all add: start_threads_eq join_threads_Cons join_threads_Nil
        async_upload_chunk_def upload_chunk_def sample_uuid4_def)
  show ?thesis
    unfolding up using cl by (simp add: md delete_file_web_def delete_file_def)
qed

subsection \<open>The invariant of chunk records\<close>

lemma in_use_of_entry:
  "map_of (file_to_chunks md) p = Some cs \<Longrightarrow> set cs \<subseteq> chunk_ids_in_use md"
  by (force simp: chunk_ids_in_use_def dest: map_of_SomeD)

lemma new_chunk_info_ok:
  "set (chunk_servers (new_chunk_info t)) \<subseteq> set (map fst NODE_MAP)"
  "primary (new_chunk_info t) \<in> set (chunk_servers (new_chunk_info t))"
  by (simp_all add: new_chunk_info_def assign_chunk_servers_eq NODE_MAP_def)

lemma records_ok_create: "records_ok md \<Longrightarrow> records_ok (fst (create_file md p sz u t))"
  unfolding records_ok_def create_file_meta using new_chunk_info_ok
  by (auto split: if_splits)

lemma records_ok_rename: "records_ok md \<Longrightarrow> records_ok (fst (rename_file md old new))"
  by (auto simp: records_ok_def rename_file_def split: option.splits)

lemma records_ok_delete: "records_ok md \<Longrightarrow> records_ok (fst (delete_file md p))"
  unfolding records_ok_def delete_file_def foldl_drop_records
  by (auto split: option.splits if_splits)

lemma owners_ok_create:
  assumes "owners_ok md"
    and fresh: "u ` {..<nat (chunk_count_of sz)} \<inter> chunk_ids_in_use md = {}"
  shows "owners_ok (fst (create_file md path sz u t))"
  unfolding owners_ok_def
proof (intro allI impI)
  fix p q cs ds c
  let ?new = "map u [0..<nat (chunk_count_of sz)]"
  assume a: "map_of (file_to_chunks (fst (create_file md path sz u t))) p = Some cs \<and>
        map_of (file_to_chunks (fst (create_file md path sz u t))) q = Some ds \<and>
        c \<in> set cs \<and> c \<in> set ds"
  have m: "map_of (file_to_chunks (fst (create_file md path sz u t))) =
      (map_of (file_to_chunks md))(path \<mapsto> ?new)"
    by (simp add: create_file_meta update_conv')
  have newset: "set ?new = u ` {..<nat (chunk_count_of sz)}"
    by (simp add: lessThan_atLeast0)
  show "p = q"
  proof (cases "p = path")
    case True
    note p = this
    show ?thesis
    proof (cases "q = path")
      case True
      with p show ?thesis by simp
    next
      case False
      with a m have "map_of (file_to_chunks md) q = Some ds" by simp
      then have "c \<in> chunk_ids_in_use md" using a in_use_of_entry by blast
      moreover have "c \<in> u ` {..<nat (chunk_count_of sz)}" using a m p newset by auto
      ultimately show ?thesis using fresh by blast
    qed
  next
    case False
    note p = this
    with a m have pm: "map_of (file_to_chunks md) p = Some cs" by simp
    show ?thesis
    proof (cases "q = path")
      case True
      have "c \<in> chunk_ids_in_use md" using a pm in_use_of_entry by blast
      moreover have "c \<in> u ` {..<nat (chunk_count_of sz)}" using a m True newset by auto
      ultimately show ?thesis using fresh by blast
    next
      case False
      with a m have "map_of (file_to_chunks md) q = Some ds" by simp
      with pm a assms(1) show ?thesis unfolding owners_ok_def by blast
    qed
  qed
qed

lemma owners_ok_rename:
  assumes "owners_ok md"
  shows "owners_ok (fst (rename_file md old new))"
proof (cases "map_of (file_to_chunks md) old")
  case None
  then show ?thesis using assms by (simp add: rename_file_def)
next
  case (Some ids)
  have m: "map_of (file_to_chunks (fst (rename_file md old new))) =
      ((map_of (file_to_chunks md))(new \<mapsto> ids))(old := None)"
    using Some by (simp add: rename_file_def update_conv' delete_conv')
  show ?thesis
    unfolding owners_ok_def m
  proof (intro allI impI)
    fix p q cs ds c
    assume a: "((map_of (file_to_chunks md))(new \<mapsto> ids, old := None)) p = Some cs \<and>
       ((map_of (file_to_chunks md))(new \<mapsto> ids, old := None)) q = Some ds \<and>
       c \<in> set cs \<and> c \<in> set ds"
    then have po: "p \<noteq> old" and qo: "q \<noteq> old" by (auto split: if_splits)
    define src where "src = (\<lambda>x. if x = new then old else x)"
    have "map_of (file_to_chunks md) (src p) = Some cs"
      using a po Some by (auto simp: src_def split: if_splits)
    moreover have "map_of (file_to_chunks md) (src q) = Some ds"
      using a qo Some by (auto simp: src_def split: if_splits)
    ultimately have "src p = src q" using assms a unfolding owners_ok_def by blast
    then show "p = q" using po qo by (auto simp: src_def split: if_splits)
  qed
qed

lemma owners_ok_delete:
  assumes "owners_ok md"
  shows "owners_ok (fst (delete_file md path))"
proof (cases "map_of (file_to_chunks md) path")
  case None
  then show ?thesis using assms by (simp add: delete_file_def)
next
  case (Some ids)
  have m: "map_of (file_to_chunks (fst (delete_file md path))) =
      (map_of (file_to_chunks md))(path := None)"
    using Some by (simp add: delete_file_def delete_conv')
  show ?thesis using assms unfolding owners_ok_def m
    by (auto split: if_splits)
qed

lemma distinct_paths_create:
  "distinct (map fst (file_to_chunks md)) \<Longrightarrow>
   distinct (map fst (file_to_chunks (fst (create_file md p sz u t))))"
  by (simp add: create_file_meta distinct_update)

lemma distinct_paths_rename:
  "distinct (map fst (file_to_chunks md)) \<Longrightarrow>
   distinct (map fst (file_to_chunks (fst (rename_file md old new))))"
  by (simp add: rename_file_def distinct_update distinct_delete split: option.splits)

lemma distinct_paths_delete:
  "distinct (map fst (file_to_chunks md)) \<Longrightarrow>
   distinct (map fst (file_to_chunks (fst (delete_file md p))))"
  by (simp add: delete_file_def distinct_delete split: option.splits)

subsection \<open>One pass of the reconciler\<close>

lemma foldl_preserves:
  "(\<And>s x. x \<in> set xs \<Longrightarrow> P s \<Longrightarrow> P (f s x)) \<Longrightarrow> P s0 \<Longrightarrow> P (foldl f s0 xs)"
  by (induction xs arbitrary: s0) simp_all

lemma foldl_establishes:
  assumes weak: "\<And>s x. x \<in> set xs \<Longrightarrow> I s \<Longrightarrow> I (f s x)"
    and strong: "\<And>s x. x \<in> set xs \<Longrightarrow> G s \<Longrightarrow> G (f s x)"
    and step: "\<And>s. I s \<Longrightarrow> G (f s a)"
    and mem: "a \<in> set xs" and start: "I s0"
  shows "G (foldl f s0 xs)"
  using weak strong mem start
proof (induction xs arbitrary: s0)
  case Nil
  then show ?case by simp
next
  case (Cons x xs)
  show ?case
  proof (cases "x = a")
    case True
    have "G (f s0 x)" unfolding True using Cons.prems(4) by (rule step)
    then have "G (foldl f (f s0 x) xs)"
      using Cons.prems(2) by (intro foldl_preserves [where P = G]) simp_all
    then show ?thesis by simp
  next
    case False
    then have "a \<in> set xs" using Cons.prems(3) by simp
    moreover have "I (f s0 x)" using Cons.prems(1,4) by simp
    ultimately have "G (foldl f (f s0 x) xs)"
      using Cons.prems(1,2) by (intro Cons.IH) simp_all
    then show ?thesis by simp
  qed
qed

lemma node_url_inj:
  "map_of NODE_MAP a = Some u \<Longrightarrow> map_of NODE_MAP b = Some u \<Longrightarrow> a = b"
  by (auto simp: NODE_MAP_def split: if_splits)

lemma reconcile_node_other_chunk:
  "k \<noteq> chunk_id \<Longrightarrow> reconcile_node servers chunk_id cl node_id u k = cl u k"
  by (auto simp: reconcile_node_def Let_def async_upload_chunk_other
      split: option.splits)

lemma reconcile_chunk_other_chunk:
  "k \<noteq> chunk_id \<Longrightarrow> reconcile_chunk md cl chunk_id u k = cl u k"
proof -
  assume ne: "k \<noteq> chunk_id"
  have "foldl (reconcile_node servers chunk_id) cl ns u k = cl u k" for servers ns
    by (rule foldl_preserves [where P = "\<lambda>c. c u k = cl u k"])
       (simp_all add: reconcile_node_other_chunk [OF ne])
  then show ?thesis by (simp add: reconcile_chunk_def split: option.splits)
qed

lemma find_other_replica:
  assumes "set servers = {a, b}" "a \<noteq> b"
  shows "List.find (\<lambda>n. n \<noteq> a) servers = Some b"
proof -
  have "\<exists>x \<in> set servers. x \<noteq> a" using assms by auto
  then obtain y where y: "List.find (\<lambda>n. n \<noteq> a) servers = Some y"
    by (cases "List.find (\<lambda>n. n \<noteq> a) servers") (auto simp: find_None_iff)
  then have "y \<in> set servers" "y \<noteq> a" by (auto simp: find_Some_iff)
  then show ?thesis using y assms by auto
qed


lemma reconcile_node_repairs:
  assumes servers: "set servers = {a, b}" and ab: "a \<noteq> b"
    and ua: "map_of NODE_MAP a = Some ua" and ub: "map_of NODE_MAP b = Some ub"
    and c: "c \<noteq> []" and d: "d \<noteq> []"
    and held: "cl ub c = Some d" and missing: "cl ua c = None \<or> cl ua c = Some d"
  shows "reconcile_node servers c cl a ua c = Some d \<and> reconcile_node servers c cl a ub c = Some d"
proof -
  have urls: "ua \<noteq> ub" using node_url_inj [OF ua] ub ab by auto
  show ?thesis
  proof (cases "cl ua c")
    case None
    have "reconcile_node servers c cl a = async_upload_chunk cl ua d c"
      using None held ua ub find_other_replica [OF servers ab]
      by (simp add: reconcile_node_def Let_def check_chunk_exists_def download_chunk_def)
    then show ?thesis
      using urls held c d by (simp add: async_upload_chunk_stores async_upload_chunk_other)
  next
    case (Some x)
    then have "reconcile_node servers c cl a = cl"
      using ua by (simp add: reconcile_node_def Let_def check_chunk_exists_def)
    then show ?thesis using Some missing held by simp
  qed
qed

lemma reconcile_node_keeps:
  assumes servers: "set servers = {a, b}" and ab: "a \<noteq> b"
    and ua: "map_of NODE_MAP a = Some ua" and ub: "map_of NODE_MAP b = Some ub"
    and n: "n \<in> set servers"
    and held: "cl ub c = Some d"
  shows "(cl ua c = None \<or> cl ua c = Some d \<longrightarrow>
            reconcile_node servers c cl n ub c = Some d \<and>
            (reconcile_node servers c cl n ua c = None \<or>
             reconcile_node servers c cl n ua c = Some d)) \<and>
         (cl ua c = Some d \<longrightarrow>
            reconcile_node servers c cl n ub c = Some d \<and>
            reconcile_node servers c cl n ua c = Some d)"
proof -
  have urls: "ua \<noteq> ub" using node_url_inj [OF ua] ub ab by auto
  have nb: "n = a \<or> n = b" using n servers by auto
  show ?thesis
  proof (cases "n = b")
    case True
    have "reconcile_node servers c cl b = cl"
      using ub held by (simp add: reconcile_node_def Let_def check_chunk_exists_def)
    then show ?thesis using True held by simp
  next
    case False
    then have na: "n = a" using nb by simp
    show ?thesis
    proof (cases "cl ua c")
      case None
      have "reconcile_node servers c cl a =
          async_upload_chunk cl ua (snd (download_chunk (cl ub) c)) c"
        using None held ua ub find_other_replica [OF servers ab]
        by (simp add: reconcile_node_def Let_def check_chunk_exists_def download_chunk_def)
      then have "reconcile_node servers c cl a = async_upload_chunk cl ua d c"
        using held by (simp add: download_chunk_def)
      then show ?thesis
        unfolding na using urls held None
        by (auto simp add: async_upload_chunk_def upload_chunk_def)
    next
      case (Some x)
      then have "reconcile_node servers c cl a = cl"
        using ua by (simp add: reconcile_node_def Let_def check_chunk_exists_def)
      then show ?thesis unfolding na using held by simp
    qed
  qed
qed


lemma sample_servers: "set (chunk_servers (new_chunk_info t)) = {''node1'', ''node2''}"
  by (simp add: new_chunk_info_def assign_chunk_servers_eq)

lemma one_chunk_file:
  "fst (create_file md p 1 u t) =
     \<lparr>file_to_chunks = AList.update p [u 0] (file_to_chunks md),
      chunk_metadata = (chunk_metadata md)(u 0 \<mapsto> new_chunk_info t)\<rparr>"
  by (simp add: create_file_def Let_def chunk_count_of_1)

text \<open>
  C3, amended. Let a non-empty chunk identifier be listed in the chunk sequence of some
  file entry and have a chunk record whose servers are, as a set, two distinct configured
  nodes \<open>a\<close> and \<open>b\<close>, and let the node of \<open>b\<close> hold non-empty bytes for the chunk while
  the node of \<open>a\<close> holds none. Then after one pass of the reconciler both nodes hold
  these bytes for the chunk.
\<close>

theorem reconcile_chunks_heals:
  assumes entry: "(file_path, chunk_ids) \<in> set (file_to_chunks md)" and listed: "c \<in> set chunk_ids"
    and info: "chunk_metadata md c = Some info"
    and servers: "set (chunk_servers info) = {a, b}" and ab: "a \<noteq> b"
    and ua: "map_of NODE_MAP a = Some ua" and ub: "map_of NODE_MAP b = Some ub"
    and c: "c \<noteq> []" and d: "d \<noteq> []"
    and held: "cl ub c = Some d" and missing: "cl ua c = None"
  shows "reconcile_chunks md cl ua c = Some d \<and> reconcile_chunks md cl ub c = Some d"
proof -
  define weak where "weak = (\<lambda>s :: cluster. s ub c = Some d \<and> (s ua c = None \<or> s ua c = Some d))"
  define healed where "healed = (\<lambda>s :: cluster. s ub c = Some d \<and> s ua c = Some d)"
  let ?servers = "chunk_servers info"
  have a_in: "a \<in> set ?servers" using servers by simp
  have sne: "?servers \<noteq> []" using servers by auto
  have node_weak: "weak (reconcile_node ?servers c s n)" if "n \<in> set ?servers" "weak s" for s n
    using reconcile_node_keeps [OF servers ab ua ub that(1), of s c d] that(2)
    unfolding weak_def by blast
  have node_healed: "healed (reconcile_node ?servers c s n)" if "n \<in> set ?servers" "healed s" for s n
    using reconcile_node_keeps [OF servers ab ua ub that(1), of s c d] that(2)
    unfolding healed_def by blast
  have node_step: "healed (reconcile_node ?servers c s a)" if "weak s" for s
    using reconcile_node_repairs [OF servers ab ua ub c d, of s] that
    unfolding weak_def healed_def by blast
  have this_chunk: "reconcile_chunk md s c = foldl (reconcile_node ?servers c) s ?servers" for s
    using info sne by (simp add: reconcile_chunk_def)
  have chunk_step: "healed (reconcile_chunk md s c)" if "weak s" for s
    unfolding this_chunk
    by (rule foldl_establishes [where I = weak and a = a])
       (simp_all add: node_weak node_healed node_step a_in that)
  have chunk_weak: "weak (reconcile_chunk md s x)" if "weak s" for s x
  proof (cases "x = c")
    case True
    show ?thesis unfolding True this_chunk
      by (rule foldl_preserves [where P = weak]) (simp_all add: node_weak that)
  next
    case False
    then have "c \<noteq> x" by simp
    then show ?thesis using that by (simp add: weak_def reconcile_chunk_other_chunk)
  qed
  have chunk_healed: "healed (reconcile_chunk md s x)" if "healed s" for s x
  proof (cases "x = c")
    case True
    show ?thesis unfolding True this_chunk
      by (rule foldl_preserves [where P = healed]) (simp_all add: node_healed that)
  next
    case False
    then have "c \<noteq> x" by simp
    then show ?thesis using that by (simp add: healed_def reconcile_chunk_other_chunk)
  qed
  let ?file = "\<lambda>s (entry :: string \<times> string list). foldl (reconcile_chunk md) s (snd entry)"
  have file_weak: "weak (?file s e)" if "weak s" for s e
    by (rule foldl_preserves [where P = weak]) (simp_all add: chunk_weak that)
  have file_healed: "healed (?file s e)" if "healed s" for s e
    by (rule foldl_preserves [where P = healed]) (simp_all add: chunk_healed that)
  have file_step: "healed (foldl (reconcile_chunk md) s chunk_ids)" if "weak s" for s
    by (rule foldl_establishes [where I = weak and a = c])
       (simp_all add: chunk_weak chunk_healed chunk_step listed that)
  have cycle: "reconcile_chunks md cl = foldl ?file cl (file_to_chunks md)"
    by (simp add: reconcile_chunks_def case_prod_unfold)
  have "weak cl" using held missing by (simp add: weak_def)
  then have "healed (reconcile_chunks md cl)"
    unfolding cycle
    by (intro foldl_establishes [where I = weak and G = healed and a = "(file_path, chunk_ids)"])
       (simp_all add: file_weak file_healed file_step entry)
  then show ?thesis by (simp add: healed_def)
qed


theorem reconcile_chunks_heals_witness:
  "(''/dfs/a.bin'', [''chunk-'']) \<in>
     set (file_to_chunks (fst (create_file empty_metadata ''/dfs/a.bin'' 1 sample_uuid4 0))) \<and>
   chunk_metadata (fst (create_file empty_metadata ''/dfs/a.bin'' 1 sample_uuid4 0)) ''chunk-'' =
     Some (new_chunk_info 0) \<and>
   set (chunk_servers (new_chunk_info 0)) = {''node1'', ''node2''} \<and>
   (empty_cluster(''http://localhost:5002'' := [''chunk-'' \<mapsto> [7]]))
     ''http://localhost:5002'' ''chunk-'' = Some [7] \<and>
   (empty_cluster(''http://localhost:5002'' := [''chunk-'' \<mapsto> [7]]))
     ''http://localhost:5001'' ''chunk-'' = None \<and>
   reconcile_chunks (fst (create_file empty_metadata ''/dfs/a.bin'' 1 sample_uuid4 0))
     (empty_cluster(''http://localhost:5002'' := [''chunk-'' \<mapsto> [7]]))
     ''http://localhost:5001'' ''chunk-'' = Some [7] \<and>
   reconcile_chunks (fst (create_file empty_metadata ''/dfs/a.bin'' 1 sample_uuid4 0))
     (empty_cluster(''http://localhost:5002'' := [''chunk-'' \<mapsto> [7]]))
     ''http://localhost:5002'' ''chunk-'' = Some [7]"
proof -
  let ?md = "fst (create_file empty_metadata ''/dfs/a.bin'' 1 sample_uuid4 0)"
  let ?cl = "empty_cluster(''http://localhost:5002'' := [''chunk-'' \<mapsto> [7 :: byte]])"
  have entry: "(''/dfs/a.bin'', [''chunk-'']) \<in> set (file_to_chunks ?md)"
    by (simp add: one_chunk_file empty_metadata_def sample_uuid4_def)
  have listed: "''chunk-'' \<in> set [''chunk-'']" by simp
  have info: "chunk_metadata ?md ''chunk-'' = Some (new_chunk_info 0)"
    by (simp add: one_chunk_file empty_metadata_def sample_uuid4_def)
  have held: "?cl ''http://localhost:5002'' ''chunk-'' = Some [7]" by simp
  have missing: "?cl ''http://localhost:5001'' ''chunk-'' = None"
    by (simp add: empty_cluster_def)
  have ab: "''node1'' \<noteq> ''node2''" and c: "''chunk-'' \<noteq> []" and d: "[7 :: byte] \<noteq> []"
    by simp_all
  have "reconcile_chunks ?md ?cl ''http://localhost:5001'' ''chunk-'' = Some [7] \<and>
      reconcile_chunks ?md ?cl ''http://localhost:5002'' ''chunk-'' = Some [7]"
    using entry listed info sample_servers [of 0] ab node_urls(1) node_urls(2) c d held missing
    by (rule reconcile_chunks_heals
        [where md = ?md and cl = ?cl and c = "''chunk-''" and d = "[7]"
           and a = "''node1''" and b = "''node2''"
           and ua = "''http://localhost:5001''" and ub = "''http://localhost:5002''"])
  then show ?thesis using entry info held missing sample_servers by simp
qed

text \<open>
  C3, as the claim states it for every chunk record, fails for a record that no file
  entry lists. Creating \<open>/dfs/a.bin\<close> twice leaves the record of the first chunk behind;
  with its bytes on the second node and not on the first, one pass of the reconciler
  leaves the first node without the chunk.
\<close>

theorem reconcile_chunks_skips_unlisted_counterexample:
  "chunk_metadata
     (fst (create_file (fst (create_file empty_metadata ''/dfs/a.bin'' 1 sample_uuid4 0))
        ''/dfs/a.bin'' 1 (\<lambda>k. ''other'') 0)) ''chunk-'' = Some (new_chunk_info 0) \<and>
   set (chunk_servers (new_chunk_info 0)) = {''node1'', ''node2''} \<and>
   (empty_cluster(''http://localhost:5002'' := [''chunk-'' \<mapsto> [7]]))
     ''http://localhost:5002'' ''chunk-'' = Some [7] \<and>
   (empty_cluster(''http://localhost:5002'' := [''chunk-'' \<mapsto> [7]]))
     ''http://localhost:5001'' ''chunk-'' = None \<and>
   reconcile_chunks
     (fst (create_file (fst (create_file empty_metadata ''/dfs/a.bin'' 1 sample_uuid4 0))
        ''/dfs/a.bin'' 1 (\<lambda>k. ''other'') 0))
     (empty_cluster(''http://localhost:5002'' := [''chunk-'' \<mapsto> [7]]))
     ''http://localhost:5001'' ''chunk-'' = None"
proof -
  let ?md = "fst (create_file (fst (create_file empty_metadata ''/dfs/a.bin'' 1 sample_uuid4 0))
        ''/dfs/a.bin'' 1 (\<lambda>k. ''other'') 0)"
  let ?cl = "empty_cluster(''http://localhost:5002'' := [''chunk-'' \<mapsto> [7 :: byte]])"
  have files: "file_to_chunks ?md = [(''/dfs/a.bin'', [''other''])]"
    by (simp add: one_chunk_file empty_metadata_def)
  have info: "chunk_metadata ?md ''chunk-'' = Some (new_chunk_info 0)"
    by (simp add: one_chunk_file empty_metadata_def sample_uuid4_def)
  have "reconcile_chunks ?md ?cl = reconcile_chunk ?md ?cl ''other''"
    by (simp add: reconcile_chunks_def files)
  then have "reconcile_chunks ?md ?cl ''http://localhost:5001'' ''chunk-'' =
      ?cl ''http://localhost:5001'' ''chunk-''"
    by (simp add: reconcile_chunk_other_chunk)
  then show ?thesis using info sample_servers by (simp add: empty_cluster_def)
qed

subsection \<open>Chunk records along sequences of operations\<close>

lemma run_operations_Nil: "run_operations [] = empty_metadata"
  by (simp add: run_operations_def)

lemma run_operations_snoc:
  "run_operations (ops @ [x]) = apply_operation (run_operations ops) x"
  by (simp add: run_operations_def)

lemma apply_operation_distinct_paths:
  "distinct (map fst (file_to_chunks md)) \<Longrightarrow>
   distinct (map fst (file_to_chunks (apply_operation md x)))"
  by (cases x) (simp_all add: distinct_paths_create distinct_paths_rename distinct_paths_delete)

lemma apply_operation_records_ok: "records_ok md \<Longrightarrow> records_ok (apply_operation md x)"
  by (cases x) (simp_all add: records_ok_create records_ok_rename records_ok_delete)

lemma run_operations_distinct_paths:
  "distinct (map fst (file_to_chunks (run_operations ops)))"
  by (induction ops rule: rev_induct)
     (simp_all add: run_operations_Nil run_operations_snoc empty_metadata_def
        apply_operation_distinct_paths)

lemma run_operations_records_ok: "records_ok (run_operations ops)"
proof (induction ops rule: rev_induct)
  case Nil
  show ?case by (simp add: run_operations_Nil empty_metadata_def records_ok_def)
next
  case (snoc x ops)
  then show ?case by (simp add: run_operations_snoc apply_operation_records_ok)
qed

lemma run_operations_owners_ok:
  assumes "\<forall>i<length ops. \<forall>file_path file_size uuid4 now.
      ops ! i = CreateFile file_path file_size uuid4 now \<longrightarrow>
      uuid4 ` {..<nat (chunk_count_of file_size)} \<inter>
        chunk_ids_in_use (run_operations (take i ops)) = {}"
  shows "owners_ok (run_operations ops)"
  using assms
proof (induction ops rule: rev_induct)
  case Nil
  show ?case by (simp add: run_operations_Nil empty_metadata_def owners_ok_def)
next
  case (snoc x ops)
  have "\<forall>i<length ops. \<forall>file_path file_size uuid4 now.
      ops ! i = CreateFile file_path file_size uuid4 now \<longrightarrow>
      uuid4 ` {..<nat (chunk_count_of file_size)} \<inter>
        chunk_ids_in_use (run_operations (take i ops)) = {}"
  proof (intro allI impI)
    fix i file_path file_size uuid4 now
    assume i: "i < length ops" and at: "ops ! i = CreateFile file_path file_size uuid4 now"
    have "(ops @ [x]) ! i = CreateFile file_path file_size uuid4 now"
      using i at by (simp add: nth_append)
    moreover have "i < length (ops @ [x])" using i by simp
    ultimately have "uuid4 ` {..<nat (chunk_count_of file_size)} \<inter>
        chunk_ids_in_use (run_operations (take i (ops @ [x]))) = {}"
      using snoc.prems by blast
    then show "uuid4 ` {..<nat (chunk_count_of file_size)} \<inter>
        chunk_ids_in_use (run_operations (take i ops)) = {}"
      using i by simp
  qed
  then have ih: "owners_ok (run_operations ops)" by (rule snoc.IH)
  show ?case
  proof (cases x)
    case (CreateFile file_path file_size uuid4 now)
    have "(ops @ [x]) ! length ops = CreateFile file_path file_size uuid4 now"
      by (simp add: CreateFile)
    moreover have "length ops < length (ops @ [x])" by simp
    ultimately have "uuid4 ` {..<nat (chunk_count_of file_size)} \<inter>
        chunk_ids_in_use (run_operations (take (length ops) (ops @ [x]))) = {}"
      using snoc.prems by blast
    then have "uuid4 ` {..<nat (chunk_count_of file_size)} \<inter>
        chunk_ids_in_use (run_operations ops) = {}" by simp
    then show ?thesis
      using ih by (simp add: run_operations_snoc CreateFile owners_ok_create)
  next
    case (RenameFile old_path new_path)
    then show ?thesis using ih by (simp add: run_operations_snoc owners_ok_rename)
  next
    case (DeleteFile file_path)
    then show ?thesis using ih by (simp add: run_operations_snoc owners_ok_delete)
  qed
qed

text \<open>
  C9, amended. In the metadata state that any sequence of calls of \<open>create_file\<close>,
  \<open>rename_file\<close> and \<open>delete_file\<close> leads to from the empty state, the paths of the file
  entries are pairwise distinct, the servers of every chunk record are configured nodes
  and the primary of every chunk record is one of its servers. If, moreover, no
  identifier that a call of \<open>create_file\<close> in the sequence draws is listed by a file entry
  at the time of that call, then a chunk identifier that the entries of two paths list
  is listed by one path only: the two paths are the same.
\<close>

theorem run_operations_chunk_records:
  "distinct (map fst (file_to_chunks (run_operations ops))) \<and>
   (\<forall>c info. chunk_metadata (run_operations ops) c = Some info \<longrightarrow>
      set (chunk_servers info) \<subseteq> set (map fst NODE_MAP) \<and>
      primary info \<in> set (chunk_servers info)) \<and>
   ((\<forall>i<length ops. \<forall>file_path file_size uuid4 now.
        ops ! i = CreateFile file_path file_size uuid4 now \<longrightarrow>
        uuid4 ` {..<nat (chunk_count_of file_size)} \<inter>
          chunk_ids_in_use (run_operations (take i ops)) = {}) \<longrightarrow>
    (\<forall>p q cs ds c. map_of (file_to_chunks (run_operations ops)) p = Some cs \<and>
        map_of (file_to_chunks (run_operations ops)) q = Some ds \<and>
        c \<in> set cs \<and> c \<in> set ds \<longrightarrow> p = q))"
  using run_operations_distinct_paths [of ops] run_operations_records_ok [of ops]
    run_operations_owners_ok [of ops]
  unfolding records_ok_def owners_ok_def by blast

theorem run_operations_chunk_records_witness:
  "sample_uuid4 ` {..<nat (chunk_count_of 9000000)} \<inter>
     chunk_ids_in_use (run_operations []) = {} \<and>
   (\<lambda>k. ''other'') ` {..<nat (chunk_count_of 1)} \<inter>
     chunk_ids_in_use (run_operations [CreateFile ''/dfs/a.bin'' 9000000 sample_uuid4 0]) = {} \<and>
   chunk_metadata (run_operations
      [CreateFile ''/dfs/a.bin'' 9000000 sample_uuid4 0,
       CreateFile ''/dfs/b.bin'' 1 (\<lambda>k. ''other'') 5]) ''other'' = Some (new_chunk_info 5) \<and>
   set (chunk_servers (new_chunk_info 5)) \<subseteq> set (map fst NODE_MAP) \<and>
   primary (new_chunk_info 5) \<in> set (chunk_servers (new_chunk_info 5)) \<and>
   map_of (file_to_chunks (run_operations
      [CreateFile ''/dfs/a.bin'' 9000000 sample_uuid4 0,
       CreateFile ''/dfs/b.bin'' 1 (\<lambda>k. ''other'') 5])) ''/dfs/a.bin'' =
     Some [''chunk-'', ''chunk-x'', ''chunk-xx''] \<and>
   map_of (file_to_chunks (run_operations
      [CreateFile ''/dfs/a.bin'' 9000000 sample_uuid4 0,
       CreateFile ''/dfs/b.bin'' 1 (\<lambda>k. ''other'') 5])) ''/dfs/b.bin'' = Some [''other''] \<and>
   ''other'' \<notin> set [''chunk-'', ''chunk-x'', ''chunk-xx'']"
proof -
  let ?a = "CreateFile ''/dfs/a.bin'' 9000000 sample_uuid4 0"
  let ?b = "CreateFile ''/dfs/b.bin'' 1 (\<lambda>k. ''other'') 5"
  let ?ops = "[?a, ?b]"
  have f0: "sample_uuid4 ` {..<nat (chunk_count_of 9000000)} \<inter>
      chunk_ids_in_use (run_operations []) = {}"
    by (simp add: run_operations_Nil chunk_ids_in_use_def empty_metadata_def)
  have use: "chunk_ids_in_use (run_operations [?a]) = {''chunk-'', ''chunk-x'', ''chunk-xx''}"
    by (simp add: run_operations_def chunk_ids_in_use_def create_file_def Let_def
        sample_chunk_ids empty_metadata_def)
  have f1: "(\<lambda>k. ''other'') ` {..<nat (chunk_count_of 1)} \<inter>
      chunk_ids_in_use (run_operations [?a]) = {}"
    unfolding use by (auto simp: chunk_count_of_1)
  have fresh: "\<forall>i<length ?ops. \<forall>file_path file_size uuid4 now.
      ?ops ! i = CreateFile file_path file_size uuid4 now \<longrightarrow>
      uuid4 ` {..<nat (chunk_count_of file_size)} \<inter>
        chunk_ids_in_use (run_operations (take i ?ops)) = {}"
  proof (intro allI impI)
    fix i file_path file_size uuid4 now
    assume i: "i < length ?ops" and at: "?ops ! i = CreateFile file_path file_size uuid4 now"
    from i have "i = 0 \<or> i = 1" by auto
    then show "uuid4 ` {..<nat (chunk_count_of file_size)} \<inter>
        chunk_ids_in_use (run_operations (take i ?ops)) = {}"
    proof
      assume "i = 0"
      then show ?thesis using at f0 by auto
    next
      assume "i = 1"
      then show ?thesis using at f1 by auto
    qed
  qed
  have run: "run_operations ?ops =
      fst (create_file (fst (create_file empty_metadata ''/dfs/a.bin'' 9000000 sample_uuid4 0))
        ''/dfs/b.bin'' 1 (\<lambda>k. ''other'') 5)"
    by (simp add: run_operations_def)
  have info: "chunk_metadata (run_operations ?ops) ''other'' = Some (new_chunk_info 5)"
    unfolding run by (simp add: one_chunk_file)
  have ea: "map_of (file_to_chunks (run_operations ?ops)) ''/dfs/a.bin'' =
      Some [''chunk-'', ''chunk-x'', ''chunk-xx'']"
    unfolding run
    by (simp add: one_chunk_file update_conv' create_file_def Let_def sample_chunk_ids
        empty_metadata_def)
  have eb: "map_of (file_to_chunks (run_operations ?ops)) ''/dfs/b.bin'' = Some [''other'']"
    unfolding run by (simp add: one_chunk_file update_conv')
  note th = run_operations_chunk_records [of ?ops]
  have srv: "set (chunk_servers (new_chunk_info 5)) \<subseteq> set (map fst NODE_MAP) \<and>
      primary (new_chunk_info 5) \<in> set (chunk_servers (new_chunk_info 5))"
    using th info by blast
  have own: "\<forall>p q cs ds c. map_of (file_to_chunks (run_operations ?ops)) p = Some cs \<and>
        map_of (file_to_chunks (run_operations ?ops)) q = Some ds \<and>
        c \<in> set cs \<and> c \<in> set ds \<longrightarrow> p = q"
    using th fresh by blast
  have "''other'' \<notin> set [''chunk-'', ''chunk-x'', ''chunk-xx'']"
  proof
    assume "''other'' \<in> set [''chunk-'', ''chunk-x'', ''chunk-xx'']"
    then have "''/dfs/a.bin'' = ''/dfs/b.bin''" using own ea eb by (metis list.set_intros(1))
    then show False by simp
  qed
  then show ?thesis using f0 f1 info srv ea eb by blast
qed

text \<open>
  C9, as the claim states it for any sequence of calls, fails where two calls of
  \<open>create_file\<close> draw the same identifier, which nothing in the handler excludes: after
  creating \<open>/dfs/a.bin\<close> and \<open>/dfs/b.bin\<close> with the same identifier drawn, the entries of
  both paths list it.
\<close>

theorem create_file_shared_identifier_counterexample:
  "map_of (file_to_chunks (run_operations
      [CreateFile ''/dfs/a.bin'' 1 sample_uuid4 0, CreateFile ''/dfs/b.bin'' 1 sample_uuid4 0]))
     ''/dfs/a.bin'' = Some [''chunk-''] \<and>
   map_of (file_to_chunks (run_operations
      [CreateFile ''/dfs/a.bin'' 1 sample_uuid4 0, CreateFile ''/dfs/b.bin'' 1 sample_uuid4 0]))
     ''/dfs/b.bin'' = Some [''chunk-''] \<and>
   ''chunk-'' \<in> set [''chunk-''] \<and> ''/dfs/a.bin'' \<noteq> ''/dfs/b.bin''"
  by (simp add: run_operations_def one_chunk_file empty_metadata_def sample_uuid4_def)

end
